theory Spec2Isabelle
  imports Main "HOL-Library.List_Lexorder" "HOL-Library.Multiset"
begin

section \<open>JavaScript values used by the kernel\<close>

text \<open>
  A JavaScript string is a sequence of UTF-16 code units; a \<open>Uint8Array\<close> is a sequence
  of bytes. Both are lists of integers: a code unit is a number from 0 to 65535, a byte a
  number from 0 to 255, and the operations below keep values of these ranges in them.
  \<open>str\<close> writes an ASCII literal of the source as code units.
  With \<open>List_Lexorder\<close> the order \<open><\<close> on \<open>jsstring\<close> is the lexicographic order on
  code units, which is the order \<open>Array.prototype.sort()\<close> uses when it is called
  without a comparator.
\<close>

type_synonym jsstring = "int list"
type_synonym bytes = "int list"

definition str :: "string \<Rightarrow> jsstring" where
  "str s = map of_char s"

text \<open>
  The values \<open>JSON.parse\<close> produces. Of the numbers only the safe integers are
  modelled, those from \<open>-(2^53 - 1)\<close> to \<open>2^53 - 1\<close>: \<open>JNum n\<close> stands for a JavaScript
  number when \<open>n\<close> is in this range, and for no JavaScript number otherwise. Fractions
  have no counterpart here. An object is the list of its own properties in enumeration
  order, and stands for a JavaScript object when its keys are distinct.
\<close>

datatype json =
    JNull
  | JBool bool
  | JNum int
  | JStr jsstring
  | JArr "json list"
  | JObj "(jsstring \<times> json) list"

subsection \<open>Property order of an ordinary object\<close>

text \<open>
  An ordinary object enumerates its array-index keys first, in ascending numeric order,
  and then its other string keys in the order of their creation. An array index is the
  canonical decimal string of an integer below \<open>2^32 - 1\<close>. \<open>obj_set kvs k v\<close> is the
  assignment \<open>o[k] = v\<close> on such an object. The key \<open>__proto__\<close> is the accessor of
  \<open>Object.prototype\<close>: assigning to it creates no property.
\<close>

definition is_digit :: "int \<Rightarrow> bool" where
  "is_digit c \<longleftrightarrow> 0x30 \<le> c \<and> c \<le> 0x39"

definition decimal_value :: "jsstring \<Rightarrow> int" where
  "decimal_value cs = foldl (\<lambda>n c. 10 * n + (c - 48)) 0 cs"

definition is_array_index :: "jsstring \<Rightarrow> bool" where
  "is_array_index k \<longleftrightarrow>
     k \<noteq> [] \<and> list_all is_digit k \<and> (hd k \<noteq> 0x30 \<or> length k = 1) \<and>
     decimal_value k < 2 ^ 32 - 1"

fun insert_index :: "jsstring \<Rightarrow> 'a \<Rightarrow> (jsstring \<times> 'a) list \<Rightarrow> (jsstring \<times> 'a) list" where
  "insert_index k v [] = [(k, v)]"
| "insert_index k v ((k', v') # kvs) =
     (if is_array_index k' \<and> decimal_value k' < decimal_value k
      then (k', v') # insert_index k v kvs
      else (k, v) # (k', v') # kvs)"

definition obj_set :: "(jsstring \<times> 'a) list \<Rightarrow> jsstring \<Rightarrow> 'a \<Rightarrow> (jsstring \<times> 'a) list" where
  "obj_set kvs k v =
     (if k = str ''__proto__'' then kvs
      else if k \<in> fst ` set kvs then map (\<lambda>(k', v'). if k' = k then (k', v) else (k', v')) kvs
      else if is_array_index k then insert_index k v kvs
      else kvs @ [(k, v)])"

section \<open>canonical.ts: canonical JSON\<close>

text \<open>
  \<open>sortedReplacer\<close> returns primitives and arrays unchanged. For an object it takes
  \<open>Object.keys(value).sort()\<close> and copies the properties, in that order, into a fresh
  object; \<open>copy_key\<close> is the body of that loop (a key without a value is skipped).
\<close>

definition copy_key ::
  "(jsstring \<times> 'a) list \<Rightarrow> (jsstring \<times> 'a) list \<Rightarrow> jsstring \<Rightarrow> (jsstring \<times> 'a) list" where
  "copy_key val out k = (case map_of val k of None \<Rightarrow> out | Some v \<Rightarrow> obj_set out k v)"

definition sorted_props :: "(jsstring \<times> 'a) list \<Rightarrow> (jsstring \<times> 'a) list" where
  "sorted_props val = foldl (copy_key val) [] (sort (map fst val))"

definition sortedReplacer :: "json \<Rightarrow> json" where
  "sortedReplacer v = (case v of JObj kvs \<Rightarrow> JObj (sorted_props kvs) | _ \<Rightarrow> v)"

subsection \<open>\<open>JSON.stringify\<close> with a replacer and no indentation\<close>

fun join_comma :: "jsstring list \<Rightarrow> jsstring" where
  "join_comma [] = []"
| "join_comma [x] = x"
| "join_comma (x # y # ys) = x @ 0x2C # join_comma (y # ys)"

text \<open>
  \<open>Number::toString\<close> on the safe integers, where it is the full decimal notation. It is
  not what JavaScript prints outside this range: there a double is printed with the
  fewest digits that identify it (\<open>9223372036854776000\<close> for \<open>2^63\<close>) and, from \<open>10^21\<close>
  on, with an exponent (\<open>1e+21\<close>). Every number of the objects and messages evaluated
  below is a safe integer.
\<close>

function digits :: "int \<Rightarrow> jsstring" where
  "digits n = (if n < 10 then [48 + n] else digits (n div 10) @ [48 + n mod 10])"
  by pat_completeness auto
termination
  by (relation "measure nat") auto

declare digits.simps [simp del]

definition number_to_string :: "int \<Rightarrow> jsstring" where
  "number_to_string n = (if n < 0 then 0x2D # digits (- n) else digits n)"

definition hex_digit :: "int \<Rightarrow> int" where
  "hex_digit n = (if n < 10 then 48 + n else 87 + n)"

definition unicode_escape :: "int \<Rightarrow> jsstring" where
  "unicode_escape c =
     [0x5C, 0x75, hex_digit (c div 4096), hex_digit (c div 256 mod 16),
      hex_digit (c div 16 mod 16), hex_digit (c mod 16)]"

definition is_high_surrogate :: "int \<Rightarrow> bool" where
  "is_high_surrogate c \<longleftrightarrow> 0xD800 \<le> c \<and> c \<le> 0xDBFF"

definition is_low_surrogate :: "int \<Rightarrow> bool" where
  "is_low_surrogate c \<longleftrightarrow> 0xDC00 \<le> c \<and> c \<le> 0xDFFF"

text \<open>
  \<open>QuoteJSONString\<close>: the two-character escapes, \<open>\uXXXX\<close> for the other control
  characters and for a surrogate that is not part of a pair, every other code unit as
  it is.
\<close>

definition quote_unit :: "int \<Rightarrow> jsstring" where
  "quote_unit c =
     (if c = 0x08 then [0x5C, 0x62] else if c = 0x09 then [0x5C, 0x74]
      else if c = 0x0A then [0x5C, 0x6E] else if c = 0x0C then [0x5C, 0x66]
      else if c = 0x0D then [0x5C, 0x72] else if c = 0x22 then [0x5C, 0x22]
      else if c = 0x5C then [0x5C, 0x5C]
      else if c < 0x20 \<or> is_high_surrogate c \<or> is_low_surrogate c then unicode_escape c
      else [c])"

fun quote_units :: "jsstring \<Rightarrow> jsstring" where
  "quote_units [] = []"
| "quote_units [c] = quote_unit c"
| "quote_units (c # d # cs) =
     (if is_high_surrogate c \<and> is_low_surrogate d then c # d # quote_units cs
      else quote_unit c @ quote_units (d # cs))"

definition QuoteJSONString :: "jsstring \<Rightarrow> jsstring" where
  "QuoteJSONString s = 0x22 # quote_units s @ [0x22]"

lemma copy_key_values:
  "snd ` set (copy_key val out k) \<subseteq> snd ` set out \<union> snd ` set val"
proof (cases "map_of val k")
  case None
  then show ?thesis by (auto simp: copy_key_def)
next
  case (Some v)
  have ins: "set (insert_index k v xs) = insert (k, v) (set xs)" for xs :: "(jsstring \<times> 'a) list"
    by (induction xs) (auto split: if_splits)
  have "v \<in> snd ` set val"
    using Some by (force dest: map_of_SomeD)
  moreover have "snd ` set (obj_set out k v) \<subseteq> insert v (snd ` set out)"
    by (auto simp: obj_set_def ins split: if_splits)
  ultimately show ?thesis
    using Some by (auto simp: copy_key_def)
qed

lemma foldl_copy_key_values:
  "snd ` set (foldl (copy_key val) acc ks) \<subseteq> snd ` set acc \<union> snd ` set val"
proof (induction ks arbitrary: acc)
  case Nil
  then show ?case by simp
next
  case (Cons k ks)
  show ?case
    using Cons.IH [of "copy_key val acc k"] copy_key_values [of val acc k] by auto
qed

lemma sorted_props_values: "(k, x) \<in> set (sorted_props val) \<Longrightarrow> x \<in> snd ` set val"
  using foldl_copy_key_values [of val "[]" "sort (map fst val)"]
  by (force simp: sorted_props_def)

lemma size_property: "(k, x) \<in> set kvs \<Longrightarrow> size x < size (JObj kvs)"
  by (induction kvs) auto

text \<open>
  \<open>serialize\<close> is \<open>SerializeJSONProperty\<close>: the replacer is applied to the value, then
  the result is written; the elements of an array and the property values of an object
  are serialized the same way, so the replacer reaches every nesting level.
\<close>

function serialize :: "json \<Rightarrow> jsstring" where
  "serialize v = (case sortedReplacer v of
       JNull \<Rightarrow> str ''null''
     | JBool b \<Rightarrow> (if b then str ''true'' else str ''false'')
     | JNum n \<Rightarrow> number_to_string n
     | JStr s \<Rightarrow> QuoteJSONString s
     | JArr xs \<Rightarrow> 0x5B # join_comma (map serialize xs) @ [0x5D]
     | JObj kvs \<Rightarrow>
         0x7B # join_comma (map (\<lambda>(k, x). QuoteJSONString k @ 0x3A # serialize x) kvs) @ [0x7D])"
  by pat_completeness auto
termination
proof (relation "measure size")
  show "wf (measure size)" by simp
next
  fix v :: json and xs x
  assume "sortedReplacer v = JArr xs" "x \<in> set xs"
  then have "v = JArr xs"
    by (cases v) (auto simp: sortedReplacer_def)
  with \<open>x \<in> set xs\<close> show "(x, v) \<in> measure size"
    by (auto simp: less_Suc_eq_le size_list_estimation')
next
  fix v :: json and kvs p k x
  assume a: "sortedReplacer v = JObj kvs" "p \<in> set kvs" "(k, x) = p"
  then obtain val where v: "v = JObj val" and kvs: "kvs = sorted_props val"
    by (cases v) (auto simp: sortedReplacer_def)
  from a kvs have "x \<in> snd ` set val"
    using sorted_props_values [of k x val] by auto
  then obtain k' where "(k', x) \<in> set val"
    by auto
  with v show "(x, v) \<in> measure size"
    using size_property [of k' x val] by simp
qed

declare serialize.simps [simp del]

definition toCanonical :: "json \<Rightarrow> jsstring" where
  "toCanonical obj = serialize obj"

section \<open>crypto.ts: hashing and signatures\<close>

text \<open>
  What the kernel calls and does not define is a parameter of the model:
  \<^item> \<open>blake3\<close> and \<open>ed25519.verify\<close> of the \<open>@noble\<close> libraries (an exception of
    \<open>ed25519.verify\<close> is caught by its only caller, so it is the value \<open>False\<close>);
  \<^item> \<open>hexToBytes\<close> of \<open>@noble/hashes/utils\<close> (\<open>None\<close> where it throws; its only
    caller catches the exception);
  \<^item> \<open>String.prototype.toLowerCase\<close>, the case mapping of the engine;
  \<^item> the parsing of a date string by \<open>new Date(s)\<close> (\<open>None\<close> is an invalid date), and
    the wall clock that \<open>new Date()\<close> reads.
\<close>

record env =
  blake3 :: "bytes \<Rightarrow> bytes"
  ed25519_verify :: "bytes \<Rightarrow> bytes \<Rightarrow> bytes \<Rightarrow> bool"
  hexToBytes :: "jsstring \<Rightarrow> bytes option"
  toLowerCase :: "jsstring \<Rightarrow> jsstring"
  date_parse :: "jsstring \<Rightarrow> int option"
  now :: int

text \<open>
  \<open>TextEncoder.encode\<close>: UTF-8, a surrogate pair as one code point, a surrogate
  outside a pair as U+FFFD.
\<close>

definition code_point :: "int \<Rightarrow> int \<Rightarrow> int" where
  "code_point hi lo = 0x10000 + (hi - 0xD800) * 0x400 + (lo - 0xDC00)"

definition utf8_of_code_point :: "int \<Rightarrow> bytes" where
  "utf8_of_code_point cp =
     (if cp < 0x80 then [cp]
      else if cp < 0x800 then [0xC0 + cp div 64, 0x80 + cp mod 64]
      else if cp < 0x10000 then
        [0xE0 + cp div 4096, 0x80 + cp div 64 mod 64, 0x80 + cp mod 64]
      else
        [0xF0 + cp div 262144, 0x80 + cp div 4096 mod 64,
         0x80 + cp div 64 mod 64, 0x80 + cp mod 64])"

definition utf8_of_unit :: "int \<Rightarrow> bytes" where
  "utf8_of_unit c =
     (if is_high_surrogate c \<or> is_low_surrogate c then [0xEF, 0xBF, 0xBD]
      else utf8_of_code_point c)"

fun TextEncoder_encode :: "jsstring \<Rightarrow> bytes" where
  "TextEncoder_encode [] = []"
| "TextEncoder_encode [c] = utf8_of_unit c"
| "TextEncoder_encode (c # d # cs) =
     (if is_high_surrogate c \<and> is_low_surrogate d
      then utf8_of_code_point (code_point c d) @ TextEncoder_encode cs
      else utf8_of_unit c @ TextEncoder_encode (d # cs))"

text \<open>\<open>bytesToHex\<close> of \<open>@noble/hashes/utils\<close>: two lowercase hex digits for each byte.\<close>

definition bytesToHex :: "bytes \<Rightarrow> jsstring" where
  "bytesToHex bs = concat (map (\<lambda>b. [hex_digit (b div 16), hex_digit (b mod 16)]) bs)"

definition OERC_S_DOMAIN :: jsstring where
  "OERC_S_DOMAIN = str ''OERC-S:v1:''"

definition normalizeHex :: "env \<Rightarrow> jsstring \<Rightarrow> jsstring" where
  "normalizeHex E hex =
     (let l = toLowerCase E hex in if take 2 l = str ''0x'' then drop 2 l else l)"

definition hexToUint8Array :: "env \<Rightarrow> jsstring \<Rightarrow> bytes option" where
  "hexToUint8Array E hex = hexToBytes E (normalizeHex E hex)"

definition uint8ArrayToHex :: "bytes \<Rightarrow> jsstring" where
  "uint8ArrayToHex bs = bytesToHex bs"

definition createSigningMessage :: "bytes \<Rightarrow> jsstring \<Rightarrow> bytes" where
  "createSigningMessage message suiteId =
     TextEncoder_encode (OERC_S_DOMAIN @ suiteId @ str '':'') @ message"

text \<open>
  \<open>computeBlake3\<close> on a string, which is what its callers here pass, and
  \<open>computeObjectId\<close> of canonical.ts: the hash of the canonical form of the object it is
  given, as it is. It removes no property.
\<close>

definition computeBlake3 :: "env \<Rightarrow> jsstring \<Rightarrow> jsstring" where
  "computeBlake3 E data = uint8ArrayToHex (blake3 E (TextEncoder_encode data))"

definition computeObjectId :: "env \<Rightarrow> json \<Rightarrow> jsstring" where
  "computeObjectId E obj = computeBlake3 E (toCanonical obj)"

text \<open>
  The exceptions that leave the kernel's functions: the \<open>Error\<close> that
  \<open>verifySignature\<close> throws for a suite other than \<open>ed25519-blake3\<close> (with the suite
  id of its message), and the \<open>TypeError\<close> of reading a property of \<open>undefined\<close>.
\<close>

datatype js_error = UnsupportedSuite jsstring | TypeError

definition verifySignature ::
  "env \<Rightarrow> jsstring \<Rightarrow> jsstring \<Rightarrow> jsstring \<Rightarrow> jsstring \<Rightarrow> js_error + bool" where
  "verifySignature E pubkey message sg suiteId =
     (if suiteId \<noteq> str ''ed25519-blake3'' then Inl (UnsupportedSuite suiteId)
      else Inr (case hexToUint8Array E pubkey of None \<Rightarrow> False
        | Some pubKeyBytes \<Rightarrow>
            if length pubKeyBytes \<noteq> 32 then False
            else (case hexToUint8Array E sg of None \<Rightarrow> False
              | Some sigBytes \<Rightarrow>
                  if length sigBytes \<noteq> 64 then False
                  else
                    let messageBytes = TextEncoder_encode message;
                        signingMessage = createSigningMessage messageBytes suiteId;
                        messageHash = blake3 E signingMessage
                    in ed25519_verify E sigBytes messageHash pubKeyBytes)))"

section \<open>types.ts: the signed objects\<close>

text \<open>
  The objects are plain JavaScript objects read from JSON. A record field is optional
  where the validators test whether the property is there; the properties the
  validators do not read are kept as JSON in the \<open>_rest\<close> fields, so that the
  canonical form of a body covers them.
\<close>

record Signature =
  pubkey :: jsstring
  sig :: jsstring
  suite_id :: jsstring

record Sigset =
  threshold :: int
  signatures :: "Signature option list"

record AuthorizedSigner =
  signer_pubkey :: jsstring
  signer_rest :: "(jsstring \<times> json) list"

record IntentPolicy =
  min_signers :: "int option"
  authorized_signers :: "AuthorizedSigner list option"
  expires_at :: "jsstring option"
  policy_rest :: "(jsstring \<times> json) list"

record CollapseSummary =
  frame_count :: "int option"
  summary_rest :: "(jsstring \<times> json) list"

text \<open>
  \<open>IntentBody\<close>, \<open>FrameBody\<close>, \<open>CollapseBody\<close> and \<open>SegmentBody\<close> are one record,
  and \<open>Intent\<close>, \<open>Frame\<close>, \<open>Collapse\<close> and \<open>Segment\<close> another (the shape
  \<open>wrapObject\<close> of conformance.ts builds): at run time the validators are handed any
  of them, and read the properties below.
\<close>

record ObjectBody =
  version :: "jsstring option"
  id_field :: "jsstring option"
  policy :: "IntentPolicy option"
  intent_id :: "jsstring option"
  sequence :: "int option"
  executor :: "jsstring option"
  frame_ids :: "jsstring list option"
  summary :: "CollapseSummary option"
  body_rest :: "(jsstring \<times> json) list"

record SignedObject =
  object_type :: jsstring
  body :: "ObjectBody option"
  sigset :: "Sigset option"
  signature :: "Signature option"

record VerificationResult =
  valid :: bool
  errors :: "jsstring list"
  warnings :: "jsstring list option"

subsection \<open>The bodies as JSON\<close>

definition property :: "string \<Rightarrow> ('a \<Rightarrow> json) \<Rightarrow> 'a option \<Rightarrow> (jsstring \<times> json) list" where
  "property k f x = (case x of None \<Rightarrow> [] | Some v \<Rightarrow> [(str k, f v)])"

definition signer_json :: "AuthorizedSigner \<Rightarrow> json" where
  "signer_json a = JObj ((str ''pubkey'', JStr (signer_pubkey a)) # signer_rest a)"

definition policy_json :: "IntentPolicy \<Rightarrow> json" where
  "policy_json p = JObj (
     property ''min_signers'' JNum (min_signers p) @
     property ''authorized_signers'' (\<lambda>l. JArr (map signer_json l)) (authorized_signers p) @
     property ''expires_at'' JStr (expires_at p) @
     policy_rest p)"

definition summary_json :: "CollapseSummary \<Rightarrow> json" where
  "summary_json c = JObj (property ''frame_count'' JNum (frame_count c) @ summary_rest c)"

definition body_json :: "ObjectBody \<Rightarrow> json" where
  "body_json b = JObj (
     property ''version'' JStr (version b) @
     property ''id'' JStr (id_field b) @
     property ''policy'' policy_json (policy b) @
     property ''intent_id'' JStr (intent_id b) @
     property ''sequence'' JNum (sequence b) @
     property ''executor'' JStr (executor b) @
     property ''frame_ids'' (\<lambda>l. JArr (map JStr l)) (frame_ids b) @
     property ''summary'' summary_json (summary b) @
     body_rest b)"

definition extractBodyForSigning :: "ObjectBody \<Rightarrow> jsstring" where
  "extractBodyForSigning b = toCanonical (body_json b)"

subsection \<open>Truthiness and template literals\<close>

definition truthy_str :: "jsstring option \<Rightarrow> bool" where
  "truthy_str s \<longleftrightarrow> (case s of None \<Rightarrow> False | Some v \<Rightarrow> v \<noteq> [])"

definition truthy_num :: "int option \<Rightarrow> bool" where
  "truthy_num n \<longleftrightarrow> (case n of None \<Rightarrow> False | Some v \<Rightarrow> v \<noteq> 0)"

definition tmpl_str :: "jsstring option \<Rightarrow> jsstring" where
  "tmpl_str s = (case s of None \<Rightarrow> str ''undefined'' | Some v \<Rightarrow> v)"

definition tmpl_num :: "int option \<Rightarrow> jsstring" where
  "tmpl_num n = (case n of None \<Rightarrow> str ''undefined'' | Some v \<Rightarrow> number_to_string v)"

definition quoted :: "jsstring \<Rightarrow> jsstring" where
  "quoted s = 0x27 # s @ [0x27]"

section \<open>verify.ts\<close>

definition success :: "jsstring list option \<Rightarrow> VerificationResult" where
  "success ws = \<lparr>valid = True, errors = [], warnings = ws\<rparr>"

definition failure :: "jsstring list \<Rightarrow> VerificationResult" where
  "failure es = \<lparr>valid = False, errors = es, warnings = None\<rparr>"

text \<open>The common end of the validators: fail on any error, else succeed with the warnings.\<close>

definition conclude :: "jsstring list \<Rightarrow> jsstring list \<Rightarrow> VerificationResult" where
  "conclude es ws =
     (if length es > 0 then failure es else success (if length ws > 0 then Some ws else None))"

definition invalid_object_type :: "string \<Rightarrow> jsstring \<Rightarrow> jsstring" where
  "invalid_object_type expected got =
     str ''Invalid object_type: expected '' @ quoted (str expected) @ str '', got '' @ quoted got"

subsection \<open>\<open>verifySigset\<close>\<close>

record SigsetResult =
  sigset_valid :: bool
  validCount :: nat
  sigset_errors :: "jsstring list"

text \<open>
  The loop over \<open>sigset.signatures\<close>, from index \<open>i\<close>, with the running \<open>validCount\<close>
  and \<open>errors\<close>. An empty slot is skipped; a signer outside the authorized set (when
  one is given) is reported and skipped; otherwise the signature is verified, and an
  exception of \<open>verifySignature\<close> ends the loop.
\<close>

fun sigset_loop ::
  "env \<Rightarrow> jsstring \<Rightarrow> jsstring set option \<Rightarrow> Signature option list \<Rightarrow> nat \<Rightarrow> nat \<Rightarrow> jsstring list
   \<Rightarrow> js_error + (nat \<times> jsstring list)" where
  "sigset_loop E message auth [] i n es = Inr (n, es)"
| "sigset_loop E message auth (None # sigs) i n es = sigset_loop E message auth sigs (i + 1) n es"
| "sigset_loop E message auth (Some s # sigs) i n es =
     (if (case auth of None \<Rightarrow> False | Some a \<Rightarrow> toLowerCase E (pubkey s) \<notin> a) then
        sigset_loop E message auth sigs (i + 1) n
          (es @ [str ''Signature '' @ number_to_string (int i) @ str '': signer '' @ pubkey s
                 @ str '' is not authorized''])
      else (case verifySignature E (pubkey s) message (sig s) (suite_id s) of
          Inl e \<Rightarrow> Inl e
        | Inr isValid \<Rightarrow>
            if isValid then sigset_loop E message auth sigs (i + 1) (n + 1) es
            else sigset_loop E message auth sigs (i + 1) n
              (es @ [str ''Signature '' @ number_to_string (int i)
                     @ str '': invalid signature from '' @ pubkey s])))"

definition verifySigset ::
  "env \<Rightarrow> Sigset \<Rightarrow> jsstring \<Rightarrow> jsstring set option \<Rightarrow> js_error + SigsetResult" where
  "verifySigset E ss message auth =
     (case sigset_loop E message auth (signatures ss) 0 0 [] of
        Inl e \<Rightarrow> Inl e
      | Inr (n, es) \<Rightarrow>
          let v = (int n \<ge> threshold ss) in
          Inr \<lparr>sigset_valid = v, validCount = n,
               sigset_errors = es @
                 (if \<not> v \<and> int n < threshold ss
                  then [str ''Threshold not met: '' @ number_to_string (int n)
                        @ str '' valid signatures, need '' @ number_to_string (threshold ss)]
                  else [])\<rparr>)"

text \<open>
  Two steps that the validators share: the set of the lowercased \<open>pubkey\<close>s of
  \<open>policy.authorized_signers\<close> (empty when the property is absent), and the comparison
  of \<open>body.id\<close> with \<open>computeObjectId(body)\<close>, which yields the errors to add.
\<close>

definition authorized_set :: "env \<Rightarrow> IntentPolicy \<Rightarrow> jsstring set" where
  "authorized_set E p =
     (case authorized_signers p of None \<Rightarrow> {}
      | Some l \<Rightarrow> set (map (\<lambda>signer. toLowerCase E (signer_pubkey signer)) l))"

definition id_mismatch :: "env \<Rightarrow> ObjectBody \<Rightarrow> jsstring list" where
  "id_mismatch E b =
     (let computedId = computeObjectId E (body_json b) in
      if id_field b \<noteq> Some computedId
      then [str ''ID mismatch: body.id is '' @ tmpl_str (id_field b)
            @ str '', computed ID is '' @ computedId]
      else [])"

subsection \<open>\<open>verifyIntent\<close>\<close>

definition verifyIntent :: "env \<Rightarrow> SignedObject \<Rightarrow> js_error + VerificationResult" where
  "verifyIntent E intent =
     (if object_type intent \<noteq> str ''intent'' then
        Inr (failure [invalid_object_type ''intent'' (object_type intent)])
      else (case body intent of
        None \<Rightarrow> Inr (failure [str ''Missing body''])
      | Some b \<Rightarrow>
         (let es1 = (if \<not> truthy_str (id_field b) then [str ''Missing body.id''] else [])
                  @ (if \<not> truthy_str (version b) then [str ''Missing body.version''] else [])
                  @ (if policy b = None then [str ''Missing body.policy''] else [])
          in if length es1 > 0 then Inr (failure es1)
          else (case policy b of
            None \<Rightarrow> Inr (failure es1)
          | Some p \<Rightarrow>
             (let es2 = es1 @ id_mismatch E b;
                  authorizedPubkeys = authorized_set E p
              in (case sigset intent of
                None \<Rightarrow> Inr (failure (es2 @ [str ''Missing sigset'']))
              | Some ss \<Rightarrow>
                  (case verifySigset E ss (extractBodyForSigning b) (Some authorizedPubkeys) of
                     Inl e \<Rightarrow> Inl e
                   | Inr sigResult \<Rightarrow>
                      (let es3 = es2 @ (if \<not> sigset_valid sigResult then sigset_errors sigResult else []);
                           es4 = es3 @
                             (if truthy_num (min_signers p) \<and>
                                 int (validCount sigResult) < (case min_signers p of Some m \<Rightarrow> m | None \<Rightarrow> 0)
                              then [str ''Policy min_signers not met: ''
                                    @ number_to_string (int (validCount sigResult))
                                    @ str '' valid, need '' @ tmpl_num (min_signers p)]
                              else []);
                           ws = (if truthy_str (expires_at p) \<and>
                                    (case date_parse E (tmpl_str (expires_at p)) of
                                       None \<Rightarrow> False | Some expiresAt \<Rightarrow> expiresAt < now E)
                                 then [str ''Intent has expired at '' @ tmpl_str (expires_at p)]
                                 else [])
                       in Inr (conclude es4 ws)))))))))"

subsection \<open>\<open>verifyIntent\<close> and the clock\<close>

text \<open>
  \<open>new Date()\<close>, without an argument, reads the wall clock; it is the only expression of
  \<open>verify.ts\<close> that does, and it stands in the expiry check of \<open>verifyIntent\<close>, as the
  right operand of \<open>expiresAt < new Date()\<close>. Here is \<open>verifyIntent\<close> once more with
  this effect made explicit: beside the result, the number of times the call has
  evaluated \<open>new Date()\<close>. Both operands of \<open><\<close> are evaluated, so the clock is read
  once whenever the call reaches the expiry check and \<open>body.policy.expires_at\<close> is
  truthy, whatever the comparison gives and whatever becomes of the warning.
\<close>

definition verifyIntent_traced ::
  "env \<Rightarrow> SignedObject \<Rightarrow> js_error + VerificationResult \<times> nat" where
  "verifyIntent_traced E intent =
     (if object_type intent \<noteq> str ''intent'' then
        Inr (failure [invalid_object_type ''intent'' (object_type intent)], 0)
      else (case body intent of
        None \<Rightarrow> Inr (failure [str ''Missing body''], 0)
      | Some b \<Rightarrow>
         (let es1 = (if \<not> truthy_str (id_field b) then [str ''Missing body.id''] else [])
                  @ (if \<not> truthy_str (version b) then [str ''Missing body.version''] else [])
                  @ (if policy b = None then [str ''Missing body.policy''] else [])
          in if length es1 > 0 then Inr (failure es1, 0)
          else (case policy b of
            None \<Rightarrow> Inr (failure es1, 0)
          | Some p \<Rightarrow>
             (let es2 = es1 @ id_mismatch E b;
                  authorizedPubkeys = authorized_set E p
              in (case sigset intent of
                None \<Rightarrow> Inr (failure (es2 @ [str ''Missing sigset'']), 0)
              | Some ss \<Rightarrow>
                  (case verifySigset E ss (extractBodyForSigning b) (Some authorizedPubkeys) of
                     Inl e \<Rightarrow> Inl e
                   | Inr sigResult \<Rightarrow>
                      (let es3 = es2 @ (if \<not> sigset_valid sigResult then sigset_errors sigResult else []);
                           es4 = es3 @
                             (if truthy_num (min_signers p) \<and>
                                 int (validCount sigResult) < (case min_signers p of Some m \<Rightarrow> m | None \<Rightarrow> 0)
                              then [str ''Policy min_signers not met: ''
                                    @ number_to_string (int (validCount sigResult))
                                    @ str '' valid, need '' @ tmpl_num (min_signers p)]
                              else [])
                       in if truthy_str (expires_at p) then
                            (let expiresAt = date_parse E (tmpl_str (expires_at p));
                                 today = now E;
                                 ws = (if (case expiresAt of None \<Rightarrow> False | Some e \<Rightarrow> e < today)
                                       then [str ''Intent has expired at '' @ tmpl_str (expires_at p)]
                                       else [])
                             in Inr (conclude es4 ws, 1))
                          else Inr (conclude es4 [], 0)))))))))"

subsection \<open>\<open>verifyFrame\<close>\<close>

text \<open>
  The optional second argument is the parent intent. Its \<open>body\<close> and \<open>policy\<close> are
  read without a test, so an intent without them raises a \<open>TypeError\<close>.
\<close>

definition verifyFrame :: "env \<Rightarrow> SignedObject \<Rightarrow> SignedObject option \<Rightarrow> js_error + VerificationResult" where
  "verifyFrame E frame intent =
     (if object_type frame \<noteq> str ''frame'' then
        Inr (failure [invalid_object_type ''frame'' (object_type frame)])
      else (case body frame of
        None \<Rightarrow> Inr (failure [str ''Missing body''])
      | Some b \<Rightarrow>
         (let es1 = (if \<not> truthy_str (id_field b) then [str ''Missing body.id''] else [])
                  @ (if \<not> truthy_str (intent_id b) then [str ''Missing body.intent_id''] else [])
                  @ (if sequence b = None then [str ''Missing or invalid body.sequence''] else [])
                  @ (if \<not> truthy_str (executor b) then [str ''Missing body.executor''] else [])
          in if length es1 > 0 then Inr (failure es1)
          else
           (let es2 = es1 @ id_mismatch E b
            in (case signature frame of
              None \<Rightarrow> Inr (failure (es2 @ [str ''Missing signature'']))
            | Some sg \<Rightarrow>
                (case verifySignature E (pubkey sg) (extractBodyForSigning b) (sig sg) (suite_id sg) of
                   Inl e \<Rightarrow> Inl e
                 | Inr sigValid \<Rightarrow>
                    (let es3 = es2 @ (if \<not> sigValid then [str ''Invalid executor signature''] else []);
                         es4 = es3 @
                           (if toLowerCase E (pubkey sg) \<noteq> toLowerCase E (tmpl_str (executor b))
                            then [str ''Signature pubkey '' @ pubkey sg
                                  @ str '' does not match executor '' @ tmpl_str (executor b)]
                            else [])
                     in (case intent of
                       None \<Rightarrow> Inr (conclude es4 [])
                     | Some i \<Rightarrow>
                         (case body i of
                            None \<Rightarrow> Inl TypeError
                          | Some ib \<Rightarrow>
                             (let es5 = es4 @
                                (if intent_id b \<noteq> id_field ib
                                 then [str ''Frame intent_id '' @ tmpl_str (intent_id b)
                                       @ str '' does not match intent '' @ tmpl_str (id_field ib)]
                                 else [])
                              in (case policy ib of
                                None \<Rightarrow> Inl TypeError
                              | Some p \<Rightarrow>
                                 (let ws = (if toLowerCase E (tmpl_str (executor b)) \<notin> authorized_set E p
                                            then [str ''Executor '' @ tmpl_str (executor b)
                                                  @ str '' is not in intent'' @ 0x27
                                                  # str ''s authorized_signers'']
                                            else [])
                                  in Inr (conclude es5 ws)))))))))))))"

subsection \<open>\<open>verifyCollapse\<close>\<close>

text \<open>
  The cross-reference checks against the frames handed in: a warning for each of
  \<open>body.frame_ids\<close> that is the id of none of them, an error for each frame of
  another intent. A frame without a \<open>body\<close> raises a \<open>TypeError\<close>.
\<close>

fun frame_bodies :: "SignedObject list \<Rightarrow> js_error + ObjectBody list" where
  "frame_bodies [] = Inr []"
| "frame_bodies (f # fs) =
     (case body f of None \<Rightarrow> Inl TypeError
      | Some fb \<Rightarrow> (case frame_bodies fs of Inl e \<Rightarrow> Inl e | Inr bs \<Rightarrow> Inr (fb # bs)))"

definition missing_frames :: "jsstring list \<Rightarrow> ObjectBody list \<Rightarrow> jsstring list" where
  "missing_frames ids fbs =
     (let frameIdSet = set (map id_field fbs) in
      map (\<lambda>frameId. str ''Frame '' @ frameId @ str '' referenced in collapse but not provided'')
        (filter (\<lambda>frameId. Some frameId \<notin> frameIdSet) ids))"

definition foreign_frames :: "jsstring option \<Rightarrow> ObjectBody list \<Rightarrow> jsstring list" where
  "foreign_frames iid fbs =
     map (\<lambda>fb. str ''Frame '' @ tmpl_str (id_field fb) @ str '' has intent_id ''
               @ tmpl_str (intent_id fb) @ str '', expected '' @ tmpl_str iid)
       (filter (\<lambda>fb. intent_id fb \<noteq> iid) fbs)"

definition verifyCollapse ::
  "env \<Rightarrow> SignedObject \<Rightarrow> SignedObject list option \<Rightarrow> js_error + VerificationResult" where
  "verifyCollapse E collapse frames =
     (if object_type collapse \<noteq> str ''collapse'' then
        Inr (failure [invalid_object_type ''collapse'' (object_type collapse)])
      else (case body collapse of
        None \<Rightarrow> Inr (failure [str ''Missing body''])
      | Some b \<Rightarrow>
         (let es1 = (if \<not> truthy_str (id_field b) then [str ''Missing body.id''] else [])
                  @ (if \<not> truthy_str (intent_id b) then [str ''Missing body.intent_id''] else [])
                  @ (if frame_ids b = None then [str ''Missing or invalid body.frame_ids''] else [])
          in if length es1 > 0 then Inr (failure es1)
          else (case frame_ids b of
            None \<Rightarrow> Inr (failure es1)
          | Some ids \<Rightarrow>
             (let es2 = es1 @ id_mismatch E b
              in (case sigset collapse of
                None \<Rightarrow> Inr (failure (es2 @ [str ''Missing sigset'']))
              | Some ss \<Rightarrow>
                  (case verifySigset E ss (extractBodyForSigning b) None of
                     Inl e \<Rightarrow> Inl e
                   | Inr sigResult \<Rightarrow>
                      (let es3 = es2 @ (if \<not> sigset_valid sigResult then sigset_errors sigResult else []);
                           ws1 = (case summary b of
                                    None \<Rightarrow> [str ''Missing body.summary'']
                                  | Some sm \<Rightarrow>
                                      if frame_count sm \<noteq> Some (int (length ids))
                                      then [str ''Summary frame_count ('' @ tmpl_num (frame_count sm)
                                            @ str '') does not match frame_ids length (''
                                            @ number_to_string (int (length ids)) @ str '')'']
                                      else [])
                       in (case frames of
                         None \<Rightarrow> Inr (conclude es3 ws1)
                       | Some fs \<Rightarrow>
                           if length fs > 0 then
                             (case frame_bodies fs of
                                Inl e \<Rightarrow> Inl e
                              | Inr fbs \<Rightarrow>
                                  Inr (conclude (es3 @ foreign_frames (intent_id b) fbs)
                                                (ws1 @ missing_frames ids fbs)))
                           else Inr (conclude es3 ws1))))))))))"

subsection \<open>\<open>verifySegment\<close> and \<open>verify\<close>\<close>

definition verifySegment :: "env \<Rightarrow> SignedObject \<Rightarrow> js_error + VerificationResult" where
  "verifySegment E segment =
     (if object_type segment \<noteq> str ''segment'' then
        Inr (failure [invalid_object_type ''segment'' (object_type segment)])
      else (case body segment of
        None \<Rightarrow> Inr (failure [str ''Missing body''])
      | Some b \<Rightarrow>
         (let es1 = id_mismatch E b
          in (case sigset segment of
            None \<Rightarrow> Inr (failure (es1 @ [str ''Missing sigset'']))
          | Some ss \<Rightarrow>
              (case verifySigset E ss (extractBodyForSigning b) None of
                 Inl e \<Rightarrow> Inl e
               | Inr sigResult \<Rightarrow>
                  (let es2 = es1 @ (if \<not> sigset_valid sigResult then sigset_errors sigResult else [])
                   in if length es2 > 0 then Inr (failure es2) else Inr (success None)))))))"

definition isIntent :: "SignedObject \<Rightarrow> bool" where
  "isIntent obj \<longleftrightarrow> object_type obj = str ''intent''"

definition isFrame :: "SignedObject \<Rightarrow> bool" where
  "isFrame obj \<longleftrightarrow> object_type obj = str ''frame''"

definition isCollapse :: "SignedObject \<Rightarrow> bool" where
  "isCollapse obj \<longleftrightarrow> object_type obj = str ''collapse''"

definition isSegment :: "SignedObject \<Rightarrow> bool" where
  "isSegment obj \<longleftrightarrow> object_type obj = str ''segment''"

definition verify :: "env \<Rightarrow> SignedObject \<Rightarrow> js_error + VerificationResult" where
  "verify E obj =
     (if isIntent obj then verifyIntent E obj
      else if isFrame obj then verifyFrame E obj None
      else if isCollapse obj then verifyCollapse E obj None
      else if isSegment obj then verifySegment E obj
      else Inr (failure [str ''Unknown object type'']))"

section \<open>cli.ts: how the commands derive an id\<close>

text \<open>
  \<open>issue-intent\<close> and \<open>emit-frame\<close> compute the id of a body whose \<open>id\<close> is absent or
  empty (``Compute ID if not present''), and \<open>collapse\<close> builds its body with
  \<open>id: ''\<close> and then assigns the computed id: each hashes the body as it stands
  before the id is stored in it.
\<close>

definition ensure_id :: "env \<Rightarrow> ObjectBody \<Rightarrow> ObjectBody" where
  "ensure_id E b =
     (if \<not> truthy_str (id_field b) then b\<lparr>id_field := Some (computeObjectId E (body_json b))\<rparr>
      else b)"

section \<open>Notions of the specification\<close>

text \<open>
  Semantic equality of two JSON values, in the words of the specification: the same
  fields and values, in any field order, at every nesting level. Arrays keep their
  order; the keys of an object are distinct.
\<close>

inductive json_equiv :: "json \<Rightarrow> json \<Rightarrow> bool" where
  equiv_null: "json_equiv JNull JNull"
| equiv_bool: "json_equiv (JBool b) (JBool b)"
| equiv_num: "json_equiv (JNum n) (JNum n)"
| equiv_str: "json_equiv (JStr s) (JStr s)"
| equiv_arr: "list_all2 json_equiv xs ys \<Longrightarrow> json_equiv (JArr xs) (JArr ys)"
| equiv_obj: "distinct (map fst xs) \<Longrightarrow> list_all2 (rel_prod (=) json_equiv) xs zs \<Longrightarrow>
     mset ys = mset zs \<Longrightarrow> json_equiv (JObj xs) (JObj ys)"

text \<open>The keys of an object, in the order they are written, ascend in UTF-8 byte order.\<close>

definition keys_in_utf8_order :: "(jsstring \<times> 'a) list \<Rightarrow> bool" where
  "keys_in_utf8_order kvs \<longleftrightarrow> sorted (map (\<lambda>kv. TextEncoder_encode (fst kv)) kvs)"

text \<open>
  The segments of a frame body (its \<open>segments\<close> property, which the validators never
  read), path continuity and the energy sum, in the words of the specification.
\<close>

definition json_get :: "json \<Rightarrow> string \<Rightarrow> json option" where
  "json_get v k = (case v of JObj kvs \<Rightarrow> map_of kvs (str k) | _ \<Rightarrow> None)"

definition segments_of :: "ObjectBody \<Rightarrow> json list" where
  "segments_of b = (case map_of (body_rest b) (str ''segments'') of Some (JArr l) \<Rightarrow> l | _ \<Rightarrow> [])"

fun path_continuous :: "json list \<Rightarrow> bool" where
  "path_continuous (s # t # l) \<longleftrightarrow>
     json_get s ''to_pubkey'' = json_get t ''from_pubkey'' \<and> path_continuous (t # l)"
| "path_continuous l \<longleftrightarrow> True"




text \<open>The checks of \<open>verifyFrame\<close> that decide its verdict, and the one its context adds.\<close>

definition frame_checks :: "env \<Rightarrow> SignedObject \<Rightarrow> bool" where
  "frame_checks E frame \<longleftrightarrow>
     object_type frame = str ''frame'' \<and>
     (case body frame of None \<Rightarrow> False
      | Some b \<Rightarrow>
          truthy_str (id_field b) \<and> truthy_str (intent_id b) \<and> sequence b \<noteq> None \<and>
          truthy_str (executor b) \<and> id_field b = Some (computeObjectId E (body_json b)) \<and>
          (case signature frame of None \<Rightarrow> False
           | Some sg \<Rightarrow>
               verifySignature E (pubkey sg) (extractBodyForSigning b) (sig sg) (suite_id sg) = Inr True \<and>
               toLowerCase E (pubkey sg) = toLowerCase E (tmpl_str (executor b))))"

definition refers_to :: "SignedObject \<Rightarrow> SignedObject \<Rightarrow> bool" where
  "refers_to frame intent \<longleftrightarrow>
     (case body frame of None \<Rightarrow> False
      | Some b \<Rightarrow> (case body intent of None \<Rightarrow> False | Some ib \<Rightarrow> intent_id b = id_field ib))"

text \<open>
  The messages of \<open>verifyFrame\<close>: the error strings its source contains, filled in for a
  given frame and context. None of them is about the segments of the frame.
\<close>

definition frame_messages :: "env \<Rightarrow> SignedObject \<Rightarrow> SignedObject option \<Rightarrow> jsstring set" where
  "frame_messages E frame ctx =
     {invalid_object_type ''frame'' (object_type frame), str ''Missing body'',
      str ''Missing body.id'', str ''Missing body.intent_id'',
      str ''Missing or invalid body.sequence'', str ''Missing body.executor'',
      str ''Missing signature'', str ''Invalid executor signature''}
     \<union> (case body frame of None \<Rightarrow> {}
        | Some b \<Rightarrow>
            set (id_mismatch E b)
            \<union> (case signature frame of None \<Rightarrow> {}
               | Some sg \<Rightarrow> {str ''Signature pubkey '' @ pubkey sg
                              @ str '' does not match executor '' @ tmpl_str (executor b)})
            \<union> (case ctx of None \<Rightarrow> {}
               | Some i \<Rightarrow>
                  (case body i of None \<Rightarrow> {}
                   | Some ib \<Rightarrow> {str ''Frame intent_id '' @ tmpl_str (intent_id b)
                                  @ str '' does not match intent '' @ tmpl_str (id_field ib)})))"

text \<open>
  Two bodies on which the hash and the check of a frame's signature come out the same.
\<close>

definition same_hash_and_signature ::
  "env \<Rightarrow> SignedObject \<Rightarrow> ObjectBody \<Rightarrow> ObjectBody \<Rightarrow> bool" where
  "same_hash_and_signature E frame b b' \<longleftrightarrow>
     computeObjectId E (body_json b') = computeObjectId E (body_json b) \<and>
     (case signature frame of None \<Rightarrow> True
      | Some sg \<Rightarrow>
          verifySignature E (pubkey sg) (extractBodyForSigning b') (sig sg) (suite_id sg)
          = verifySignature E (pubkey sg) (extractBodyForSigning b) (sig sg) (suite_id sg))"

text \<open>
  When a call of \<open>verifyIntent\<close> gets as far as its expiry check with an expiry date to
  look at: the intent has its type, its body and the required fields, a sigset whose
  verification raises no exception, and a truthy \<open>expires_at\<close>. And the warnings of an
  intent that is found valid, as the time of the run decides them.
\<close>

definition expiry_checked :: "env \<Rightarrow> SignedObject \<Rightarrow> bool" where
  "expiry_checked E intent \<longleftrightarrow>
     object_type intent = str ''intent'' \<and>
     (case body intent of None \<Rightarrow> False
      | Some b \<Rightarrow>
          truthy_str (id_field b) \<and> truthy_str (version b) \<and>
          (case policy b of None \<Rightarrow> False
           | Some p \<Rightarrow>
               truthy_str (expires_at p) \<and>
               (case sigset intent of None \<Rightarrow> False
                | Some ss \<Rightarrow>
                    (case verifySigset E ss (extractBodyForSigning b) (Some (authorized_set E p)) of
                       Inl e \<Rightarrow> False | Inr sigResult \<Rightarrow> True))))"

definition expiry_warning :: "env \<Rightarrow> IntentPolicy \<Rightarrow> jsstring list option" where
  "expiry_warning E p =
     (if truthy_str (expires_at p) \<and>
         (case date_parse E (tmpl_str (expires_at p)) of
            None \<Rightarrow> False | Some expiresAt \<Rightarrow> expiresAt < now E)
      then Some [str ''Intent has expired at '' @ tmpl_str (expires_at p)]
      else None)"

section \<open>A concrete environment and concrete objects\<close>

text \<open>
  To run the validators on concrete objects the parameters get values. The hash and the
  signature scheme are toys: the hash of a message is 32 copies of its length modulo
  256, and a signature is valid when it is the hash of the signing message followed by
  the public key. They are not BLAKE3 and Ed25519; nothing relies on them but the
  evaluation of the code at the concrete objects below. Hex strings are decoded
  strictly (an even number of hex digits, nothing else), \<open>toLowerCase\<close> maps the
  letters A to Z and leaves every other code unit as it is, which is what the engine does
  on the hex strings of the objects below, and the only date string the parser knows is
  \<open>2025-01-01T00:00:00Z\<close>, at its true value in milliseconds.
\<close>

definition length_hash :: "bytes \<Rightarrow> bytes" where
  "length_hash bs = replicate 32 (int (length bs) mod 256)"

definition asciiToBase16 :: "int \<Rightarrow> int option" where
  "asciiToBase16 c =
     (if 0x30 \<le> c \<and> c \<le> 0x39 then Some (c - 0x30)
      else if 0x41 \<le> c \<and> c \<le> 0x46 then Some (c - 0x37)
      else if 0x61 \<le> c \<and> c \<le> 0x66 then Some (c - 0x57)
      else None)"

fun strict_hex :: "jsstring \<Rightarrow> bytes option" where
  "strict_hex [] = Some []"
| "strict_hex [c] = None"
| "strict_hex (c # d # cs) =
     (case asciiToBase16 c of None \<Rightarrow> None
      | Some a \<Rightarrow> (case asciiToBase16 d of None \<Rightarrow> None
        | Some b \<Rightarrow> (case strict_hex cs of None \<Rightarrow> None
          | Some r \<Rightarrow> Some ((a * 16 + b) # r))))"

definition ascii_lower :: "jsstring \<Rightarrow> jsstring" where
  "ascii_lower s = map (\<lambda>c. if 0x41 \<le> c \<and> c \<le> 0x5A then c + 0x20 else c) s"

definition test_env :: env where
  "test_env = \<lparr>blake3 = length_hash,
               ed25519_verify = (\<lambda>sg h pk. sg = h @ pk),
               hexToBytes = strict_hex,
               toLowerCase = ascii_lower,
               date_parse = (\<lambda>s. if s = str ''2025-01-01T00:00:00Z'' then Some 1735689600000 else None),
               now = 1735689600001\<rparr>"

definition rep32 :: "string \<Rightarrow> jsstring" where
  "rep32 s = concat (replicate 32 (str s))"

definition key_a :: jsstring where
  "key_a = rep32 ''aa''"

text \<open>The toy signature of key \<open>a\<close> on a signing message whose hash is 32 bytes \<open>h\<close>.\<close>

definition signed_by_a :: "string \<Rightarrow> Signature" where
  "signed_by_a h = \<lparr>pubkey = key_a, sig = rep32 h @ key_a, suite_id = str ''ed25519-blake3''\<rparr>"

definition empty_body :: ObjectBody where
  "empty_body = \<lparr>version = None, id_field = None, policy = None, intent_id = None, sequence = None,
     executor = None, frame_ids = None, summary = None, body_rest = []\<rparr>"

definition signer_a :: AuthorizedSigner where
  "signer_a = \<lparr>signer_pubkey = key_a, signer_rest = []\<rparr>"

definition test_policy :: "jsstring option \<Rightarrow> AuthorizedSigner list option \<Rightarrow> IntentPolicy" where
  "test_policy ex au = \<lparr>min_signers = Some 1, authorized_signers = au, expires_at = ex, policy_rest = []\<rparr>"

definition intent_body :: "jsstring option \<Rightarrow> IntentPolicy \<Rightarrow> ObjectBody" where
  "intent_body i p = empty_body\<lparr>version := Some (str ''1.0.0''), id_field := i, policy := Some p\<rparr>"

definition test_intent :: "ObjectBody \<Rightarrow> Signature list \<Rightarrow> SignedObject" where
  "test_intent b sgs = \<lparr>object_type = str ''intent'', body = Some b,
     sigset = Some \<lparr>threshold = 1, signatures = map Some sgs\<rparr>, signature = None\<rparr>"

text \<open>
  An intent whose id is derived from the body without its id, as \<open>issue-intent\<close> does,
  and which key \<open>a\<close>, its one authorized signer, has signed.
\<close>

definition unsigned_body :: ObjectBody where
  "unsigned_body = intent_body None (test_policy None (Some [signer_a]))"

definition derived_intent :: SignedObject where
  "derived_intent = test_intent (ensure_id test_env unsigned_body) [signed_by_a ''f4'']"

text \<open>The same intent with the id that the validator computes.\<close>

definition fixpoint_intent :: SignedObject where
  "fixpoint_intent =
     test_intent (intent_body (Some (rep32 ''db'')) (test_policy None (Some [signer_a])))
       [signed_by_a ''f4'']"

text \<open>An intent with an expiry date, valid in every other respect.\<close>

definition expiring_intent :: SignedObject where
  "expiring_intent =
     test_intent (intent_body (Some (rep32 ''ff''))
                   (test_policy (Some (str ''2025-01-01T00:00:00Z'')) (Some [signer_a])))
       [signed_by_a ''18'']"

text \<open>
  An intent with the same expiry date and signature whose id is derived from the body
  without its id, as \<open>issue-intent\<close> does.
\<close>

definition dated_body :: ObjectBody where
  "dated_body = intent_body None (test_policy (Some (str ''2025-01-01T00:00:00Z'')) (Some [signer_a]))"

definition dated_intent :: SignedObject where
  "dated_intent = test_intent (ensure_id test_env dated_body) [signed_by_a ''18'']"

text \<open>An intent with an empty list of authorized signers and a valid signature.\<close>

definition open_intent :: SignedObject where
  "open_intent =
     test_intent (intent_body (Some (rep32 ''8e'')) (test_policy None (Some [])))
       [signed_by_a ''a7'']"

text \<open>The signature of \<open>fixpoint_intent\<close> with the other suite that \<open>SuiteId\<close> names.\<close>

definition secp_intent :: SignedObject where
  "secp_intent =
     test_intent (intent_body (Some (rep32 ''db'')) (test_policy None (Some [signer_a])))
       [(signed_by_a ''f4'')\<lparr>suite_id := str ''secp256k1-keccak256''\<rparr>]"

text \<open>
  A frame with two segments \<open>A \<rightarrow> B\<close> and \<open>C \<rightarrow> D\<close>, and a frame whose segments carry
  600 and 500 units of energy for an intent with \<open>max_energy\<close> 1000; both have the id
  the validator computes and the signature of their executor.
\<close>

definition frame_body :: "jsstring \<Rightarrow> json \<Rightarrow> ObjectBody" where
  "frame_body i segs = empty_body\<lparr>id_field := Some i, intent_id := Some (str ''i1''),
     sequence := Some 0, executor := Some key_a, body_rest := [(str ''segments'', segs)]\<rparr>"

definition test_frame :: "ObjectBody \<Rightarrow> Signature \<Rightarrow> SignedObject" where
  "test_frame b sg = \<lparr>object_type = str ''frame'', body = Some b, sigset = None, signature = Some sg\<rparr>"

definition broken_path_body :: ObjectBody where
  "broken_path_body = frame_body (rep32 ''0a'')
     (JArr [JObj [(str ''from_pubkey'', JStr (str ''A'')), (str ''to_pubkey'', JStr (str ''B''))],
            JObj [(str ''from_pubkey'', JStr (str ''C'')), (str ''to_pubkey'', JStr (str ''D''))]])"

definition broken_path_frame :: SignedObject where
  "broken_path_frame = test_frame broken_path_body (signed_by_a ''23'')"

text \<open>The frame with the broken path under an id that is not the one the validator computes.\<close>

definition relabelled_frame :: SignedObject where
  "relabelled_frame =
     test_frame (broken_path_body\<lparr>id_field := Some (rep32 ''00'')\<rparr>) (signed_by_a ''23'')"

text \<open>
  The frame with the segments \<open>A \<rightarrow> B\<close> and \<open>B \<rightarrow> D\<close>, a continuous path, and the same
  id and signature; its canonical form is as long as that of the frame with the broken
  path, so the toy hash does not tell the two apart.
\<close>

definition chained_body :: ObjectBody where
  "chained_body = frame_body (rep32 ''0a'')
     (JArr [JObj [(str ''from_pubkey'', JStr (str ''A'')), (str ''to_pubkey'', JStr (str ''B''))],
            JObj [(str ''from_pubkey'', JStr (str ''B'')), (str ''to_pubkey'', JStr (str ''D''))]])"

definition chained_frame :: SignedObject where
  "chained_frame = test_frame chained_body (signed_by_a ''23'')"

definition excess_energy_body :: ObjectBody where
  "excess_energy_body = frame_body (rep32 ''f0'')
     (JArr [JObj [(str ''energy_partial'', JNum 600)], JObj [(str ''energy_partial'', JNum 500)]])"

definition excess_energy_frame :: SignedObject where
  "excess_energy_frame = test_frame excess_energy_body (signed_by_a ''09'')"

definition parent_body :: "int \<Rightarrow> ObjectBody" where
  "parent_body e = empty_body\<lparr>id_field := Some (str ''i1''),
     policy := Some (test_policy None (Some [signer_a])),
     body_rest := [(str ''max_energy'', JNum e)]\<rparr>"

definition parent_intent :: "int \<Rightarrow> SignedObject" where
  "parent_intent e = \<lparr>object_type = str ''intent'', body = Some (parent_body e),
     sigset = None, signature = None\<rparr>"

text \<open>A collapse without a summary, with the id the validator computes and a valid sigset.\<close>

definition test_collapse :: SignedObject where
  "test_collapse = \<lparr>object_type = str ''collapse'',
     body = Some (empty_body\<lparr>id_field := Some (rep32 ''6d''), intent_id := Some (str ''i1''),
       frame_ids := Some [str ''f1'']\<rparr>),
     sigset = Some \<lparr>threshold = 1, signatures = [Some (signed_by_a ''86'')]\<rparr>, signature = None\<rparr>"

definition ok_result :: VerificationResult where
  "ok_result = \<lparr>valid = True, errors = [], warnings = None\<rparr>"

text \<open>One document in two field orders.\<close>

definition doc_a :: json where
  "doc_a = JObj [(str ''b'', JNum 1),
     (str ''a'', JObj [(str ''y'', JArr [JBool True, JStr (str ''s'')]), (str ''x'', JNull)])]"

definition doc_b :: json where
  "doc_b = JObj [(str ''a'', JObj [(str ''x'', JNull), (str ''y'', JArr [JBool True, JStr (str ''s'')])]),
     (str ''b'', JNum 1)]"

section \<open>Canonical determinism\<close>

text \<open>
  The reordering of \<open>sortedReplacer\<close> does not look at the values, so it commutes with
  any function applied to them, and it yields the same object for every order in which
  the same properties are listed.
\<close>

lemma insert_index_map:
  "insert_index k (f v) (map (apsnd f) xs) = map (apsnd f) (insert_index k v xs)"
  by (induction xs) auto

lemma obj_set_map: "obj_set (map (apsnd f) xs) k (f v) = map (apsnd f) (obj_set xs k v)"
  by (auto simp: obj_set_def insert_index_map image_image)

lemma copy_key_map:
  "copy_key (map (apsnd f) val) (map (apsnd f) out) k = map (apsnd f) (copy_key val out k)"
proof -
  have "map_of (map (apsnd f) val) k = map_option f (map_of val k)"
    by (induction val) auto
  then show ?thesis
    by (cases "map_of val k") (simp_all add: copy_key_def obj_set_map)
qed

lemma foldl_copy_key_map:
  "foldl (copy_key (map (apsnd f) val)) (map (apsnd f) out) ks =
   map (apsnd f) (foldl (copy_key val) out ks)"
  by (induction ks arbitrary: out) (simp_all add: copy_key_map)

lemma sorted_props_map: "sorted_props (map (apsnd f) val) = map (apsnd f) (sorted_props val)"
proof -
  have "map fst (map (apsnd f) val) = map fst val"
    by (induction val) auto
  then show ?thesis
    using foldl_copy_key_map [of f val "[]"] by (simp add: sorted_props_def)
qed

lemma sorted_props_perm:
  assumes "distinct (map fst xs)" and "mset ys = mset xs"
  shows "sorted_props ys = sorted_props xs"
proof -
  have m: "mset (map fst ys) = mset (map fst xs)"
    using assms(2) by (metis mset_map)
  then have d: "distinct (map fst ys)"
    using assms(1) by (metis mset_eq_imp_distinct_iff)
  have "set ys = set xs"
    using assms(2) by (metis mset_eq_setD)
  then have "map_of ys = map_of xs"
    using assms(1) d by (simp add: map_of_inject_set)
  then have "copy_key ys = copy_key xs"
    by (auto simp: copy_key_def fun_eq_iff)
  moreover have "sort (map fst ys) = sort (map fst xs)"
    using m by (metis properties_for_sort sorted_sort mset_sort)
  ultimately show ?thesis
    by (simp add: sorted_props_def)
qed

lemma serialize_obj:
  "serialize (JObj kvs) =
     0x7B # join_comma (map (\<lambda>(k, s). QuoteJSONString k @ 0x3A # s)
                        (sorted_props (map (apsnd serialize) kvs))) @ [0x7D]"
  by (simp add: serialize.simps [of "JObj kvs"] sortedReplacer_def sorted_props_map
      split_def comp_def)

lemma serialize_arr: "serialize (JArr xs) = 0x5B # join_comma (map serialize xs) @ [0x5D]"
  by (simp add: serialize.simps [of "JArr xs"] sortedReplacer_def)

text \<open>
  C7. Canonical determinism: two semantically equal values (the same fields and values,
  in any field order, at every nesting level) have the same canonical form, code unit
  for code unit.
\<close>

theorem canonical_determinism: "json_equiv a b \<Longrightarrow> toCanonical a = toCanonical b"
proof (induction rule: json_equiv.induct)
  case (equiv_arr xs ys)
  then have "map serialize xs = map serialize ys"
    by (induction rule: list_all2_induct) (auto simp: toCanonical_def)
  then show ?case
    by (simp add: toCanonical_def serialize_arr)
next
  case (equiv_obj xs zs ys)
  have "list_all2 (rel_prod (=) (\<lambda>v w. json_equiv v w \<and> toCanonical v = toCanonical w)) xs zs"
    using equiv_obj by simp
  then have eq: "map (apsnd serialize) xs = map (apsnd serialize) zs"
    by (induction rule: list_all2_induct) (auto simp: toCanonical_def)
  have dx: "distinct (map fst xs)" and ms: "mset ys = mset zs"
    using equiv_obj by simp_all
  have "map fst (map (apsnd serialize) xs) = map fst xs"
    by (induction xs) auto
  then have "distinct (map fst (map (apsnd serialize) zs))"
    using dx eq by simp
  moreover have "mset (map (apsnd serialize) ys) = mset (map (apsnd serialize) zs)"
    using ms by (metis mset_map)
  ultimately have
    "sorted_props (map (apsnd serialize) ys) = sorted_props (map (apsnd serialize) zs)"
    by (rule sorted_props_perm)
  with eq show ?case
    by (simp add: toCanonical_def serialize_obj)
qed (simp_all add: toCanonical_def)

text \<open>
  The same document written in two field orders, at two nesting levels, and its
  canonical form.
\<close>

lemma doc_a_canonical:
  "toCanonical doc_a = str ''{\"a\":{\"x\":null,\"y\":[true,\"s\"]},\"b\":1}''"
  by code_simp

theorem canonical_determinism_witness:
  "json_equiv doc_a doc_b \<and> toCanonical doc_a = toCanonical doc_b"
proof -
  have inner: "json_equiv
      (JObj [(str ''y'', JArr [JBool True, JStr (str ''s'')]), (str ''x'', JNull)])
      (JObj [(str ''x'', JNull), (str ''y'', JArr [JBool True, JStr (str ''s'')])])"
  proof (rule equiv_obj)
    show "distinct (map fst [(str ''y'', JArr [JBool True, JStr (str ''s'')]), (str ''x'', JNull)])"
      by (simp add: str_def)
    show "list_all2 (rel_prod (=) json_equiv)
        [(str ''y'', JArr [JBool True, JStr (str ''s'')]), (str ''x'', JNull)]
        [(str ''y'', JArr [JBool True, JStr (str ''s'')]), (str ''x'', JNull)]"
      by (auto intro!: json_equiv.intros)
    show "mset [(str ''x'', JNull), (str ''y'', JArr [JBool True, JStr (str ''s'')])]
        = mset [(str ''y'', JArr [JBool True, JStr (str ''s'')]), (str ''x'', JNull)]"
      by (simp add: add_mset_commute)
  qed
  have h: "json_equiv doc_a doc_b"
    unfolding doc_a_def doc_b_def
  proof (rule equiv_obj)
    show "distinct (map fst [(str ''b'', JNum 1),
        (str ''a'', JObj [(str ''y'', JArr [JBool True, JStr (str ''s'')]), (str ''x'', JNull)])])"
      by (simp add: str_def)
    show "list_all2 (rel_prod (=) json_equiv)
        [(str ''b'', JNum 1),
         (str ''a'', JObj [(str ''y'', JArr [JBool True, JStr (str ''s'')]), (str ''x'', JNull)])]
        [(str ''b'', JNum 1),
         (str ''a'', JObj [(str ''x'', JNull), (str ''y'', JArr [JBool True, JStr (str ''s'')])])]"
      using inner by (auto intro!: json_equiv.intros)
    show "mset [(str ''a'', JObj [(str ''x'', JNull), (str ''y'', JArr [JBool True, JStr (str ''s'')])]),
               (str ''b'', JNum 1)]
        = mset [(str ''b'', JNum 1),
               (str ''a'', JObj [(str ''x'', JNull), (str ''y'', JArr [JBool True, JStr (str ''s'')])])]"
      by (simp add: add_mset_commute)
  qed
  show ?thesis
    using h canonical_determinism [OF h] by simp
qed

section \<open>Key order of the canonical form\<close>

text \<open>
  C8. The keys of the canonical form are to ascend in the byte order of their UTF-8
  encodings. \<open>sort()\<close> compares UTF-16 code units: the key U+1F600, the surrogate pair
  \<open>D83D DE00\<close>, is written before the key U+FF5E, although its UTF-8 encoding
  \<open>F0 9F 98 80\<close> is above \<open>EF BD 9E\<close>.
\<close>

theorem astral_key_before_bmp_key:
  "toCanonical (JObj [([0xFF5E], JNum 1), ([0xD83D, 0xDE00], JNum 2)])
     = [0x7B, 0x22, 0xD83D, 0xDE00, 0x22, 0x3A, 0x32, 0x2C, 0x22, 0xFF5E, 0x22, 0x3A, 0x31, 0x7D]
   \<and> sortedReplacer (JObj [([0xFF5E], JNum 1), ([0xD83D, 0xDE00], JNum 2)])
     = JObj [([0xD83D, 0xDE00], JNum 2), ([0xFF5E], JNum 1)]
   \<and> TextEncoder_encode [0xD83D, 0xDE00] = [0xF0, 0x9F, 0x98, 0x80]
   \<and> TextEncoder_encode [0xFF5E] = [0xEF, 0xBD, 0x9E]
   \<and> \<not> keys_in_utf8_order (sorted_props [([0xFF5E], JNum 1), ([0xD83D, 0xDE00], JNum 2)])"
  by code_simp

text \<open>
  The property order of the object that \<open>sortedReplacer\<close> builds is a second departure:
  keys that are array indices are written first, in numeric order.
\<close>

lemma index_keys_in_numeric_order:
  "toCanonical (JObj [(str ''10'', JNum 1), (str ''9'', JNum 2)]) = str ''{\"9\":2,\"10\":1}''
   \<and> TextEncoder_encode (str ''10'') < TextEncoder_encode (str ''9'')"
  by code_simp

section \<open>The verdict and the error list\<close>

lemma failure_simps [simp]:
  "valid (failure es) = False" "errors (failure es) = es" "warnings (failure es) = None"
  by (simp_all add: failure_def)

lemma success_simps [simp]:
  "valid (success ws) = True" "errors (success ws) = []" "warnings (success ws) = ws"
  by (simp_all add: success_def)

lemma conclude_simps [simp]:
  "valid (conclude es ws) \<longleftrightarrow> es = []" "errors (conclude es ws) = es"
  by (simp_all add: conclude_def)

lemma verifyIntent_consistent:
  "verifyIntent E x = Inr r \<Longrightarrow> valid r \<longleftrightarrow> errors r = []"
  unfolding verifyIntent_def Let_def
  by (auto split: option.splits sum.splits if_splits)

lemma verifyFrame_consistent:
  "verifyFrame E x i = Inr r \<Longrightarrow> valid r \<longleftrightarrow> errors r = []"
  unfolding verifyFrame_def Let_def
  by (auto split: option.splits sum.splits if_splits)

lemma verifyCollapse_consistent:
  "verifyCollapse E x fs = Inr r \<Longrightarrow> valid r \<longleftrightarrow> errors r = []"
  unfolding verifyCollapse_def Let_def
  by (auto split: option.splits sum.splits if_splits)

lemma verifySegment_consistent:
  "verifySegment E x = Inr r \<Longrightarrow> valid r \<longleftrightarrow> errors r = []"
  unfolding verifySegment_def Let_def
  by (auto split: option.splits sum.splits if_splits)

lemma verify_consistent:
  "verify E x = Inr r \<Longrightarrow> valid r \<longleftrightarrow> errors r = []"
  unfolding verify_def
  by (auto simp: verifyIntent_consistent verifyFrame_consistent verifyCollapse_consistent
      verifySegment_consistent split: if_splits)

text \<open>
  C9. In every result that \<open>verifyIntent\<close>, \<open>verifyFrame\<close>, \<open>verifyCollapse\<close> or
  \<open>verify\<close> returns, \<open>valid\<close> is true exactly when the list of errors is empty, whatever
  the warnings are.
\<close>

theorem valid_iff_no_errors:
  "(verifyIntent E a = Inr r1 \<longrightarrow> (valid r1 \<longleftrightarrow> errors r1 = []))
   \<and> (verifyFrame E b i = Inr r2 \<longrightarrow> (valid r2 \<longleftrightarrow> errors r2 = []))
   \<and> (verifyCollapse E c fs = Inr r3 \<longrightarrow> (valid r3 \<longleftrightarrow> errors r3 = []))
   \<and> (verify E d = Inr r4 \<longrightarrow> (valid r4 \<longleftrightarrow> errors r4 = []))"
  using verifyIntent_consistent verifyFrame_consistent verifyCollapse_consistent verify_consistent
  by blast

text \<open>
  Four runs: an expired intent (valid, with a warning), a frame (valid), a collapse
  without a summary (valid, with a warning) and an intent whose id does not match
  (invalid).
\<close>

lemma expired_intent_result:
  "verifyIntent test_env expiring_intent =
     Inr \<lparr>valid = True, errors = [],
          warnings = Some [str ''Intent has expired at 2025-01-01T00:00:00Z'']\<rparr>"
  by code_simp

lemma broken_path_frame_result: "verifyFrame test_env broken_path_frame None = Inr ok_result"
  by code_simp

lemma test_collapse_result:
  "verifyCollapse test_env test_collapse None =
     Inr \<lparr>valid = True, errors = [], warnings = Some [str ''Missing body.summary'']\<rparr>"
  by code_simp

lemma derived_intent_result:
  "verify test_env derived_intent =
     Inr \<lparr>valid = False,
          errors = [str ''ID mismatch: body.id is '' @ rep32 ''93'' @ str '', computed ID is ''
                    @ rep32 ''db''],
          warnings = None\<rparr>"
  by code_simp

theorem valid_iff_no_errors_witness:
  "verifyIntent test_env expiring_intent =
     Inr \<lparr>valid = True, errors = [],
          warnings = Some [str ''Intent has expired at 2025-01-01T00:00:00Z'']\<rparr>
   \<and> verifyFrame test_env broken_path_frame None = Inr ok_result
   \<and> verifyCollapse test_env test_collapse None =
     Inr \<lparr>valid = True, errors = [], warnings = Some [str ''Missing body.summary'']\<rparr>
   \<and> verify test_env derived_intent =
     Inr \<lparr>valid = False,
          errors = [str ''ID mismatch: body.id is '' @ rep32 ''93'' @ str '', computed ID is ''
                    @ rep32 ''db''],
          warnings = None\<rparr>
   \<and> (valid ok_result \<longleftrightarrow> errors ok_result = [])"
  using valid_iff_no_errors [of test_env expiring_intent _ broken_path_frame None ok_result
      test_collapse None _ derived_intent]
    expired_intent_result broken_path_frame_result test_collapse_result derived_intent_result
  by simp

section \<open>The sigset verifier\<close>

lemma sigset_loop_append:
  "sigset_loop E m auth (xs @ ys) i n es =
     (case sigset_loop E m auth xs i n es of
        Inl e \<Rightarrow> Inl e
      | Inr (n', es') \<Rightarrow> sigset_loop E m auth ys (i + length xs) n' es')"
  by (induction E m auth xs i n es rule: sigset_loop.induct)
     (auto split: sum.splits option.splits)

subsection \<open>No authorized signer\<close>

lemma sigset_loop_none_authorized:
  "\<exists>es'. sigset_loop E m (Some {}) sigs i n es = Inr (n, es')"
proof (induction sigs arbitrary: i es)
  case Nil
  then show ?case by simp
next
  case (Cons x sigs)
  then show ?case by (cases x) auto
qed

lemma verifySigset_none_authorized:
  assumes "1 \<le> threshold ss"
  shows "\<exists>sr. verifySigset E ss m (Some {}) = Inr sr \<and> validCount sr = 0 \<and> \<not> sigset_valid sr
           \<and> sigset_errors sr \<noteq> []"
proof -
  obtain es' where "sigset_loop E m (Some {}) (signatures ss) 0 0 [] = Inr (0, es')"
    using sigset_loop_none_authorized by blast
  then show ?thesis
    using assms by (simp add: verifySigset_def Let_def)
qed

text \<open>
  C10. An intent whose policy has no \<open>authorized_signers\<close>, or an empty list of them,
  and whose sigset has a threshold of at least 1 is invalid, however many of its
  signatures verify: the set of authorized keys is always handed to \<open>verifySigset\<close>,
  here empty, so no signature is counted.
\<close>

theorem no_authorized_signers_invalid:
  assumes "body intent = Some b" and "policy b = Some p"
    and "authorized_signers p = None \<or> authorized_signers p = Some []"
    and "sigset intent = Some ss" and "1 \<le> threshold ss"
  shows "(\<exists>sr. verifySigset E ss (extractBodyForSigning b) (Some (authorized_set E p)) = Inr sr
             \<and> validCount sr = 0 \<and> \<not> sigset_valid sr)
         \<and> (\<exists>r. verifyIntent E intent = Inr r \<and> \<not> valid r)"
proof -
  have a: "authorized_set E p = {}"
    using assms(3) by (auto simp: authorized_set_def)
  obtain sr where sr: "verifySigset E ss (extractBodyForSigning b) (Some {}) = Inr sr"
      "validCount sr = 0" "\<not> sigset_valid sr" "sigset_errors sr \<noteq> []"
    using verifySigset_none_authorized [OF assms(5)] by blast
  have "\<exists>r. verifyIntent E intent = Inr r \<and> \<not> valid r"
    using assms(1,2,4) sr a
    by (auto simp: verifyIntent_def Let_def)
  then show ?thesis
    using sr a by auto
qed

text \<open>
  The signature of \<open>open_intent\<close> verifies, and the intent is rejected all the same.
\<close>

lemma open_intent_signature_verifies:
  "verifySignature test_env key_a (extractBodyForSigning (intent_body (Some (rep32 ''8e''))
      (test_policy None (Some [])))) (rep32 ''a7'' @ key_a) (str ''ed25519-blake3'') = Inr True"
  by code_simp

lemma open_intent_result:
  "verifyIntent test_env open_intent =
     Inr \<lparr>valid = False,
          errors = [str ''Signature 0: signer '' @ key_a @ str '' is not authorized'',
                    str ''Threshold not met: 0 valid signatures, need 1'',
                    str ''Policy min_signers not met: 0 valid, need 1''],
          warnings = None\<rparr>"
  by code_simp

theorem no_authorized_signers_invalid_witness:
  "authorized_signers (test_policy None (Some [])) = Some []
   \<and> threshold \<lparr>threshold = 1, signatures = [Some (signed_by_a ''a7'')]\<rparr> = 1
   \<and> (\<exists>r. verifyIntent test_env open_intent = Inr r \<and> \<not> valid r)"
proof -
  have 1: "body open_intent = Some (intent_body (Some (rep32 ''8e'')) (test_policy None (Some [])))"
    by (simp add: open_intent_def test_intent_def)
  have 2: "policy (intent_body (Some (rep32 ''8e'')) (test_policy None (Some [])))
             = Some (test_policy None (Some []))"
    by (simp add: intent_body_def empty_body_def)
  have 3: "authorized_signers (test_policy None (Some [])) = None
           \<or> authorized_signers (test_policy None (Some [])) = Some []"
    by (simp add: test_policy_def)
  have 4: "sigset open_intent = Some \<lparr>threshold = 1, signatures = [Some (signed_by_a ''a7'')]\<rparr>"
    by (simp add: open_intent_def test_intent_def)
  have 5: "1 \<le> threshold \<lparr>threshold = 1, signatures = [Some (signed_by_a ''a7'')]\<rparr>"
    by simp
  show ?thesis
    using no_authorized_signers_invalid [OF 1 2 3 4 5, of test_env]
    by (simp add: test_policy_def)
qed

subsection \<open>A signature listed twice\<close>

text \<open>
  C4, as the code has it. \<open>verifySigset\<close> counts every entry of the list that verifies.
  A second copy of a signature that was counted is counted again: with the copy
  appended, \<open>validCount\<close> is one higher and the sigset is valid when the higher count
  reaches the threshold; a valid sigset stays valid.
\<close>

theorem duplicate_signature_counted_again:
  assumes "verifySigset E ss m auth = Inr r"
    and "Some s \<in> set (signatures ss)"
    and "verifySignature E (pubkey s) m (sig s) (suite_id s) = Inr True"
    and "case auth of None \<Rightarrow> True | Some a \<Rightarrow> toLowerCase E (pubkey s) \<in> a"
  shows "\<exists>r'. verifySigset E (ss\<lparr>signatures := signatures ss @ [Some s]\<rparr>) m auth = Inr r'
           \<and> validCount r' = validCount r + 1
           \<and> (sigset_valid r' \<longleftrightarrow> threshold ss \<le> int (validCount r) + 1)
           \<and> (sigset_valid r \<longrightarrow> sigset_valid r')"
proof -
  obtain n es where l: "sigset_loop E m auth (signatures ss) 0 0 [] = Inr (n, es)"
    using assms(1) by (auto simp: verifySigset_def split: sum.splits)
  then have r: "validCount r = n" "sigset_valid r \<longleftrightarrow> threshold ss \<le> int n"
    using assms(1) by (auto simp: verifySigset_def Let_def)
  have "sigset_loop E m auth (signatures ss @ [Some s]) 0 0 [] = Inr (n + 1, es)"
    using l assms(3,4) by (auto simp: sigset_loop_append split: option.splits)
  then show ?thesis
    using r by (auto simp: verifySigset_def Let_def)
qed

text \<open>
  One signature of key \<open>a\<close> on the message \<open>abc\<close> under a threshold of 2, and the same
  with the signature listed twice.
\<close>

theorem duplicate_signature_meets_threshold:
  "verifySigset test_env \<lparr>threshold = 2, signatures = [Some (signed_by_a ''1c'')]\<rparr> (str ''abc'') None
     = Inr \<lparr>sigset_valid = False, validCount = 1,
            sigset_errors = [str ''Threshold not met: 1 valid signatures, need 2'']\<rparr>
   \<and> verifySigset test_env
       \<lparr>threshold = 2, signatures = [Some (signed_by_a ''1c''), Some (signed_by_a ''1c'')]\<rparr>
       (str ''abc'') None
     = Inr \<lparr>sigset_valid = True, validCount = 2, sigset_errors = []\<rparr>"
  by code_simp

theorem duplicate_signature_counted_again_witness:
  "verifySigset test_env \<lparr>threshold = 2, signatures = [Some (signed_by_a ''1c'')]\<rparr> (str ''abc'') None
     = Inr \<lparr>sigset_valid = False, validCount = 1,
            sigset_errors = [str ''Threshold not met: 1 valid signatures, need 2'']\<rparr>
   \<and> verifySignature test_env (pubkey (signed_by_a ''1c'')) (str ''abc'') (sig (signed_by_a ''1c''))
       (suite_id (signed_by_a ''1c'')) = Inr True
   \<and> (\<exists>r'. verifySigset test_env
          \<lparr>threshold = 2, signatures = [Some (signed_by_a ''1c''), Some (signed_by_a ''1c'')]\<rparr>
          (str ''abc'') None = Inr r'
        \<and> validCount r' = 2 \<and> sigset_valid r')"
proof -
  have 1: "verifySigset test_env \<lparr>threshold = 2, signatures = [Some (signed_by_a ''1c'')]\<rparr>
             (str ''abc'') None
           = Inr \<lparr>sigset_valid = False, validCount = 1,
                  sigset_errors = [str ''Threshold not met: 1 valid signatures, need 2'']\<rparr>"
    by code_simp
  have 2: "Some (signed_by_a ''1c'')
           \<in> set (signatures \<lparr>threshold = 2, signatures = [Some (signed_by_a ''1c'')]\<rparr>)"
    by simp
  have 3: "verifySignature test_env (pubkey (signed_by_a ''1c'')) (str ''abc'')
             (sig (signed_by_a ''1c'')) (suite_id (signed_by_a ''1c'')) = Inr True"
    by code_simp
  have 4: "case None of None \<Rightarrow> True | Some a \<Rightarrow> toLowerCase test_env (pubkey (signed_by_a ''1c'')) \<in> a"
    by simp
  show ?thesis
    using duplicate_signature_counted_again [OF 1 2 3 4] 1 3 by (auto simp: eval_nat_numeral)
qed

subsection \<open>A suite that is not supported\<close>

lemma verifySignature_unsupported:
  "suite \<noteq> str ''ed25519-blake3'' \<Longrightarrow>
   verifySignature E pk m sg suite = Inl (UnsupportedSuite suite)"
  by (simp add: verifySignature_def)

lemma verifySigset_unsupported:
  assumes "suite_id s \<noteq> str ''ed25519-blake3''"
    and "sigset_loop E m auth pre 0 0 [] = Inr st"
    and "case auth of None \<Rightarrow> True | Some a \<Rightarrow> toLowerCase E (pubkey s) \<in> a"
  shows "verifySigset E \<lparr>threshold = t, signatures = pre @ Some s # post\<rparr> m auth
           = Inl (UnsupportedSuite (suite_id s))"
proof -
  obtain n es where st: "st = (n, es)"
    by (cases st)
  have "sigset_loop E m auth (pre @ Some s # post) 0 0 [] = Inl (UnsupportedSuite (suite_id s))"
    using assms st
    by (auto simp: sigset_loop_append verifySignature_unsupported split: option.splits)
  then show ?thesis
    by (simp add: verifySigset_def)
qed

text \<open>
  C5, as the code has it. A signature whose suite id is not \<open>ed25519-blake3\<close> is never
  counted as valid: \<open>verifySignature\<close> throws an \<open>Unsupported suite\<close> error for it.
  Nothing catches the exception, so when the loop of the sigset reaches the signature
  (the signatures before it raised nothing and its signer is authorized) the call of
  \<open>verifyIntent\<close>, and of \<open>verify\<close>, ends with the exception and returns no result.
\<close>

theorem unsupported_suite_raises:
  assumes "object_type x = str ''intent''" and "body x = Some b"
    and "truthy_str (id_field b)" and "truthy_str (version b)" and "policy b = Some p"
    and "sigset x = Some \<lparr>threshold = t, signatures = pre @ Some s # post\<rparr>"
    and "suite_id s \<noteq> str ''ed25519-blake3''"
    and "toLowerCase E (pubkey s) \<in> authorized_set E p"
    and "sigset_loop E (extractBodyForSigning b) (Some (authorized_set E p)) pre 0 0 [] = Inr st"
  shows "verifySignature E (pubkey s) (extractBodyForSigning b) (sig s) (suite_id s)
           = Inl (UnsupportedSuite (suite_id s))
         \<and> verifyIntent E x = Inl (UnsupportedSuite (suite_id s))
         \<and> verify E x = Inl (UnsupportedSuite (suite_id s))"
proof -
  have "verifySigset E \<lparr>threshold = t, signatures = pre @ Some s # post\<rparr>
          (extractBodyForSigning b) (Some (authorized_set E p)) = Inl (UnsupportedSuite (suite_id s))"
    using assms(7,8,9) by (intro verifySigset_unsupported) auto
  then have "verifyIntent E x = Inl (UnsupportedSuite (suite_id s))"
    using assms(1-6) by (simp add: verifyIntent_def Let_def)
  then show ?thesis
    using assms(1,7) by (simp add: verify_def isIntent_def verifySignature_unsupported)
qed

text \<open>
  The valid intent \<open>fixpoint_intent\<close> with the suite of its signature changed to
  \<open>secp256k1-keccak256\<close>, the second member of the type \<open>SuiteId\<close>.
\<close>

theorem unsupported_suite_exception:
  "verify test_env secp_intent = Inl (UnsupportedSuite (str ''secp256k1-keccak256''))"
  by code_simp

theorem unsupported_suite_raises_witness:
  "suite_id ((signed_by_a ''f4'')\<lparr>suite_id := str ''secp256k1-keccak256''\<rparr>) \<noteq> str ''ed25519-blake3''
   \<and> verifyIntent test_env secp_intent = Inl (UnsupportedSuite (str ''secp256k1-keccak256''))
   \<and> verify test_env secp_intent = Inl (UnsupportedSuite (str ''secp256k1-keccak256''))"
proof -
  let ?b = "intent_body (Some (rep32 ''db'')) (test_policy None (Some [signer_a]))"
  let ?s = "(signed_by_a ''f4'')\<lparr>suite_id := str ''secp256k1-keccak256''\<rparr>"
  have 1: "object_type secp_intent = str ''intent''"
    by (simp add: secp_intent_def test_intent_def)
  have 2: "body secp_intent = Some ?b"
    by (simp add: secp_intent_def test_intent_def)
  have 3: "truthy_str (id_field ?b)"
    by code_simp
  have 4: "truthy_str (version ?b)"
    by code_simp
  have 5: "policy ?b = Some (test_policy None (Some [signer_a]))"
    by (simp add: intent_body_def empty_body_def)
  have 6: "sigset secp_intent = Some \<lparr>threshold = 1, signatures = [] @ Some ?s # []\<rparr>"
    by (simp add: secp_intent_def test_intent_def)
  have 7: "suite_id ?s \<noteq> str ''ed25519-blake3''"
    by (simp add: str_def)
  have 8: "toLowerCase test_env (pubkey ?s) \<in> authorized_set test_env (test_policy None (Some [signer_a]))"
    by code_simp
  have 9: "sigset_loop test_env (extractBodyForSigning ?b)
             (Some (authorized_set test_env (test_policy None (Some [signer_a])))) [] 0 0 [] = Inr (0, [])"
    by simp
  show ?thesis
    using unsupported_suite_raises [OF 1 2 3 4 5 6 7 8 9] 7 by simp
qed

section \<open>The wall clock\<close>

lemma hexToUint8Array_clock: "hexToUint8Array (E\<lparr>now := t\<rparr>) h = hexToUint8Array E h"
  by (simp add: hexToUint8Array_def normalizeHex_def)

lemma verifySignature_clock:
  "verifySignature (E\<lparr>now := t\<rparr>) pk m sg suite = verifySignature E pk m sg suite"
  by (simp add: verifySignature_def hexToUint8Array_clock Let_def split: option.splits)

lemma authorized_set_clock: "authorized_set (E\<lparr>now := t\<rparr>) p = authorized_set E p"
  by (simp add: authorized_set_def split: option.splits)

lemma sigset_loop_clock:
  "sigset_loop (E\<lparr>now := t\<rparr>) m auth sigs i n es = sigset_loop E m auth sigs i n es"
  by (induction E m auth sigs i n es rule: sigset_loop.induct)
     (auto simp: verifySignature_clock split: sum.splits option.splits)

lemma verifySigset_clock: "verifySigset (E\<lparr>now := t\<rparr>) ss m auth = verifySigset E ss m auth"
  by (simp add: verifySigset_def sigset_loop_clock)

lemma id_mismatch_clock: "id_mismatch (E\<lparr>now := t\<rparr>) b = id_mismatch E b"
  by (simp add: id_mismatch_def computeObjectId_def computeBlake3_def)

lemma verifyFrame_clock: "verifyFrame (E\<lparr>now := t\<rparr>) f i = verifyFrame E f i"
  by (simp add: verifyFrame_def id_mismatch_clock verifySignature_clock authorized_set_clock
      Let_def split: option.splits sum.splits)

lemma verifyCollapse_clock: "verifyCollapse (E\<lparr>now := t\<rparr>) c fs = verifyCollapse E c fs"
  by (simp add: verifyCollapse_def id_mismatch_clock verifySigset_clock Let_def
      split: option.splits sum.splits)

lemma verifySegment_clock: "verifySegment (E\<lparr>now := t\<rparr>) s = verifySegment E s"
  by (simp add: verifySegment_def id_mismatch_clock verifySigset_clock Let_def
      split: option.splits sum.splits)

lemma verifyIntent_clock:
  "map_sum id (\<lambda>r. (valid r, errors r)) (verifyIntent (E\<lparr>now := t\<rparr>) x)
     = map_sum id (\<lambda>r. (valid r, errors r)) (verifyIntent E x)"
  by (simp add: verifyIntent_def id_mismatch_clock verifySigset_clock authorized_set_clock
      Let_def split: option.splits sum.splits)

text \<open>The traced \<open>verifyIntent\<close> returns what \<open>verifyIntent\<close> returns.\<close>

lemma verifyIntent_traced_result: "map_sum id fst (verifyIntent_traced E x) = verifyIntent E x"
  by (simp add: verifyIntent_traced_def verifyIntent_def Let_def split: option.splits sum.splits)

text \<open>A call that returns has read the clock once if it got to the expiry check, else never.\<close>

lemma verifyIntent_traced_reads:
  "map_sum id snd (verifyIntent_traced E x)
     = map_sum id (\<lambda>r. if expiry_checked E x then 1 else 0) (verifyIntent E x)"
  by (simp add: verifyIntent_traced_def verifyIntent_def expiry_checked_def Let_def
      split: option.splits sum.splits)

text \<open>\<open>failure\<close> drops the warnings: an invalid result has none, so the time read is lost.\<close>

lemma conclude_warnings:
  "warnings (conclude es ws) = (if es = [] \<and> ws \<noteq> [] then Some ws else None)"
  by (simp add: conclude_def)

lemma verifyIntent_invalid_no_warnings:
  "verifyIntent E x = Inr r \<Longrightarrow> \<not> valid r \<Longrightarrow> warnings r = None"
  unfolding verifyIntent_def Let_def
  by (auto simp: conclude_warnings split: option.splits sum.splits if_splits)

lemma verifyIntent_invalid_clock:
  assumes "verifyIntent E x = Inr r" and "\<not> valid r"
  shows "verifyIntent (E\<lparr>now := t\<rparr>) x = Inr r"
proof -
  from verifyIntent_clock [where E = E and t = t and x = x] assms(1)
  obtain r' where r': "verifyIntent (E\<lparr>now := t\<rparr>) x = Inr r'"
      and same: "valid r' = valid r" "errors r' = errors r"
    by (cases "verifyIntent (E\<lparr>now := t\<rparr>) x") auto
  from verifyIntent_invalid_no_warnings [OF r'] same assms(2) have "warnings r' = None"
    by simp
  moreover from verifyIntent_invalid_no_warnings [OF assms] have "warnings r = None" .
  ultimately have "r' = r"
    using same by simp
  with r' show ?thesis by simp
qed

lemma verifyIntent_valid_warnings:
  assumes "verifyIntent E x = Inr r" and "valid r" and "body x = Some b" and "policy b = Some p"
  shows "warnings r = expiry_warning E p"
  using assms unfolding verifyIntent_def Let_def
  by (auto simp: expiry_warning_def conclude_warnings split: option.splits sum.splits if_splits)

text \<open>
  An intent with an expiry date and a derived id. With the toy hash it is rejected for
  its id, as it is with every hash that does not happen to map the body with the id to
  that id; and under every hash and every signature scheme the call reads the clock.
\<close>

lemma dated_intent_result:
  "verifyIntent test_env dated_intent =
     Inr (failure [str ''ID mismatch: body.id is '' @ rep32 ''b7'' @ str '', computed ID is ''
                   @ rep32 ''ff''])"
  by code_simp

lemma dated_intent_any_env: "map_sum id snd (verifyIntent_traced E dated_intent) = Inr 1"
proof -
  have k: "truthy_str (id_field (ensure_id test_env dated_body))"
     "truthy_str (version (ensure_id test_env dated_body))"
     "truthy_str (Some (str ''2025-01-01T00:00:00Z''))"
    by code_simp+
  have p: "policy (ensure_id test_env dated_body)
      = Some (test_policy (Some (str ''2025-01-01T00:00:00Z'')) (Some [signer_a]))"
    by (simp add: ensure_id_def dated_body_def intent_body_def empty_body_def)
  show ?thesis
    using k p
    by (auto simp: verifyIntent_traced_def dated_intent_def test_intent_def
        test_policy_def verifySigset_def authorized_set_def signer_a_def
        signed_by_a_def verifySignature_def Let_def split: option.splits sum.splits)
qed

text \<open>
  With a hash under which the id check passes, as the toy hash does for
  \<open>expiring_intent\<close>, the time read shows in the result: the same intent one
  millisecond before its expiry date and one millisecond after it.
\<close>

lemma valid_intent_warning_by_time:
  "verifyIntent (test_env\<lparr>now := 1735689599999\<rparr>) expiring_intent = Inr ok_result
   \<and> verifyIntent (test_env\<lparr>now := 1735689600001\<rparr>) expiring_intent =
       Inr \<lparr>valid = True, errors = [],
            warnings = Some [str ''Intent has expired at 2025-01-01T00:00:00Z'']\<rparr>"
  by code_simp

text \<open>
  C6, as the code has it. \<open>verifyFrame\<close>, \<open>verifyCollapse\<close> and \<open>verifySegment\<close> do not
  read the clock: their results are the same at every time. \<open>verifyIntent\<close> does read it, by
  \<open>new Date()\<close>: once in every call that gets to the expiry check of an intent with an
  \<open>expires_at\<close>, and in no other call. What it reads changes neither the verdict nor
  the errors, and nothing at all in an invalid result; in a valid result it decides
  whether the warning of expiry is there.
\<close>

theorem clock_read_only_for_expiry_warning:
  "verifyFrame (E\<lparr>now := t\<rparr>) f i = verifyFrame E f i
   \<and> verifyCollapse (E\<lparr>now := t\<rparr>) c fs = verifyCollapse E c fs
   \<and> verifySegment (E\<lparr>now := t\<rparr>) s = verifySegment E s
   \<and> map_sum id (\<lambda>r. (valid r, errors r)) (verifyIntent (E\<lparr>now := t\<rparr>) x)
       = map_sum id (\<lambda>r. (valid r, errors r)) (verifyIntent E x)
   \<and> map_sum id fst (verifyIntent_traced E x) = verifyIntent E x
   \<and> map_sum id snd (verifyIntent_traced E x)
       = map_sum id (\<lambda>r. if expiry_checked E x then 1 else 0) (verifyIntent E x)
   \<and> (verifyIntent E y = Inr q \<and> \<not> valid q \<longrightarrow> verifyIntent (E\<lparr>now := t\<rparr>) y = Inr q)
   \<and> (verifyIntent E x = Inr r \<and> valid r \<and> body x = Some b \<and> policy b = Some p
        \<longrightarrow> warnings r = expiry_warning E p)"
proof (intro conjI impI)
  show "verifyFrame (E\<lparr>now := t\<rparr>) f i = verifyFrame E f i"
    by (rule verifyFrame_clock)
  show "verifyCollapse (E\<lparr>now := t\<rparr>) c fs = verifyCollapse E c fs"
    by (rule verifyCollapse_clock)
  show "verifySegment (E\<lparr>now := t\<rparr>) s = verifySegment E s"
    by (rule verifySegment_clock)
  show "map_sum id (\<lambda>r. (valid r, errors r)) (verifyIntent (E\<lparr>now := t\<rparr>) x)
       = map_sum id (\<lambda>r. (valid r, errors r)) (verifyIntent E x)"
    by (rule verifyIntent_clock)
  show "map_sum id fst (verifyIntent_traced E x) = verifyIntent E x"
    by (rule verifyIntent_traced_result)
  show "map_sum id snd (verifyIntent_traced E x)
       = map_sum id (\<lambda>r. if expiry_checked E x then 1 else 0) (verifyIntent E x)"
    by (rule verifyIntent_traced_reads)
  show "verifyIntent (E\<lparr>now := t\<rparr>) y = Inr q" if "verifyIntent E y = Inr q \<and> \<not> valid q"
    using that verifyIntent_invalid_clock [of E y q t] by simp
  show "warnings r = expiry_warning E p"
    if "verifyIntent E x = Inr r \<and> valid r \<and> body x = Some b \<and> policy b = Some p"
    using that verifyIntent_valid_warnings [of E x r b p] by simp
qed

text \<open>
  A call of \<open>verifyIntent\<close> that reads the clock: the intent with an expiry date and a
  derived id. The result is the rejection for the id, and the clock has been read once.
\<close>

theorem clock_read_by_verifyIntent:
  "verifyIntent_traced test_env dated_intent =
     Inr (\<lparr>valid = False,
           errors = [str ''ID mismatch: body.id is '' @ rep32 ''b7'' @ str '', computed ID is ''
                     @ rep32 ''ff''],
           warnings = None\<rparr>, 1)"
  by code_simp

theorem clock_read_only_for_expiry_warning_witness:
  "verifyFrame (test_env\<lparr>now := 0\<rparr>) broken_path_frame None = Inr ok_result
   \<and> verifyCollapse (test_env\<lparr>now := 0\<rparr>) test_collapse None
       = verifyCollapse test_env test_collapse None
   \<and> map_sum id (\<lambda>r. (valid r, errors r)) (verifyIntent (test_env\<lparr>now := 0\<rparr>) expiring_intent)
       = Inr (True, [])
   \<and> map_sum id snd (verifyIntent_traced test_env expiring_intent) = Inr 1
   \<and> expiry_checked test_env expiring_intent
   \<and> verifyIntent test_env dated_intent =
       Inr (failure [str ''ID mismatch: body.id is '' @ rep32 ''b7'' @ str '', computed ID is ''
                     @ rep32 ''ff''])
   \<and> verifyIntent (test_env\<lparr>now := 0\<rparr>) dated_intent = verifyIntent test_env dated_intent
   \<and> verifyIntent test_env expiring_intent =
       Inr \<lparr>valid = True, errors = [],
            warnings = Some [str ''Intent has expired at 2025-01-01T00:00:00Z'']\<rparr>
   \<and> expiry_warning test_env (test_policy (Some (str ''2025-01-01T00:00:00Z'')) (Some [signer_a]))
       = Some [str ''Intent has expired at 2025-01-01T00:00:00Z'']"
proof -
  have b: "body expiring_intent = Some (intent_body (Some (rep32 ''ff''))
             (test_policy (Some (str ''2025-01-01T00:00:00Z'')) (Some [signer_a])))"
    by (simp add: expiring_intent_def test_intent_def)
  have p: "policy (intent_body (Some (rep32 ''ff''))
             (test_policy (Some (str ''2025-01-01T00:00:00Z'')) (Some [signer_a])))
           = Some (test_policy (Some (str ''2025-01-01T00:00:00Z'')) (Some [signer_a]))"
    by (simp add: intent_body_def empty_body_def)
  have c: "expiry_checked test_env expiring_intent"
    by code_simp
  show ?thesis
    using clock_read_only_for_expiry_warning [where E = test_env and t = 0
        and f = broken_path_frame and i = None and c = test_collapse and fs = None
        and x = expiring_intent and y = dated_intent
        and r = "\<lparr>valid = True, errors = [],
                  warnings = Some [str ''Intent has expired at 2025-01-01T00:00:00Z'']\<rparr>"
        and q = "failure [str ''ID mismatch: body.id is '' @ rep32 ''b7''
                          @ str '', computed ID is '' @ rep32 ''ff'']"
        and b = "intent_body (Some (rep32 ''ff''))
                   (test_policy (Some (str ''2025-01-01T00:00:00Z'')) (Some [signer_a]))"
        and p = "test_policy (Some (str ''2025-01-01T00:00:00Z'')) (Some [signer_a])"]
      broken_path_frame_result expired_intent_result dated_intent_result b p c
    by simp
qed

section \<open>Object identifiers\<close>

lemma id_mismatch_empty [simp]:
  "id_mismatch E b = [] \<longleftrightarrow> id_field b = Some (computeObjectId E (body_json b))"
  by (simp add: id_mismatch_def Let_def)

text \<open>
  The id check of the validators hashes the body with its id in it. For an id that was
  derived from the body without the id, it therefore passes only if the hash gives the
  same value for the body with the id and for the body without it.
\<close>

lemma derived_id_check:
  assumes "\<not> truthy_str (id_field b)"
  shows "id_mismatch E (ensure_id E b) = [] \<longleftrightarrow>
         computeObjectId E (body_json (ensure_id E b)) = computeObjectId E (body_json b)"
  using assms by (auto simp: ensure_id_def)

text \<open>
  For \<open>unsigned_body\<close> the two canonical forms differ whatever the id is: under every
  hash, the id that \<open>issue-intent\<close> derives passes the check of the validators only
  through a collision of the hash.
\<close>

lemma serialize_str: "serialize (JStr s) = QuoteJSONString s"
  by (simp add: serialize.simps [of "JStr s"] sortedReplacer_def)

lemma quoted_keys:
  "QuoteJSONString (str ''id'') = str ''\"id\"''"
  "QuoteJSONString (str ''policy'') = str ''\"policy\"''"
  "QuoteJSONString (str ''version'') = str ''\"version\"''"
  by code_simp+

lemma canonical_with_id:
  "toCanonical (body_json (intent_body (Some i) (test_policy None (Some [signer_a]))))
     = str ''{\"id\":'' @ QuoteJSONString i @ str '',\"policy\":''
       @ serialize (policy_json (test_policy None (Some [signer_a])))
       @ str '',\"version\":'' @ serialize (JStr (str ''1.0.0'')) @ str ''}''"
proof -
  have "sorted_props [(str ''version'', v), (str ''id'', w), (str ''policy'', p)]
      = [(str ''id'', w), (str ''policy'', p), (str ''version'', v)]" for v w p :: jsstring
    by (simp add: sorted_props_def copy_key_def obj_set_def is_array_index_def is_digit_def str_def)
  then show ?thesis
    by (simp add: toCanonical_def body_json_def intent_body_def empty_body_def property_def
        serialize_obj serialize_str quoted_keys)
       (simp add: str_def)
qed

lemma canonical_without_id:
  "toCanonical (body_json unsigned_body)
     = str ''{\"policy\":'' @ serialize (policy_json (test_policy None (Some [signer_a])))
       @ str '',\"version\":'' @ serialize (JStr (str ''1.0.0'')) @ str ''}''"
proof -
  have "sorted_props [(str ''version'', v), (str ''policy'', p)]
      = [(str ''policy'', p), (str ''version'', v)]" for v p :: jsstring
    by (simp add: sorted_props_def copy_key_def obj_set_def is_array_index_def is_digit_def str_def)
  then show ?thesis
    by (simp add: toCanonical_def body_json_def unsigned_body_def intent_body_def empty_body_def
        property_def serialize_obj serialize_str quoted_keys)
       (simp add: str_def)
qed

lemma canonical_differs:
  "toCanonical (body_json (intent_body (Some i) (test_policy None (Some [signer_a]))))
   \<noteq> toCanonical (body_json unsigned_body)"
  by (simp add: canonical_with_id canonical_without_id str_def)

lemma derived_id_needs_collision:
  assumes "id_mismatch E (ensure_id E unsigned_body) = []"
  shows "toCanonical (body_json (ensure_id E unsigned_body)) \<noteq> toCanonical (body_json unsigned_body)
       \<and> computeBlake3 E (toCanonical (body_json (ensure_id E unsigned_body)))
         = computeBlake3 E (toCanonical (body_json unsigned_body))"
proof -
  have e: "ensure_id E unsigned_body
      = intent_body (Some (computeObjectId E (body_json unsigned_body)))
          (test_policy None (Some [signer_a]))"
    by (simp add: ensure_id_def unsigned_body_def intent_body_def empty_body_def truthy_str_def)
  have "id_field (ensure_id E unsigned_body) = Some (computeObjectId E (body_json unsigned_body))"
    by (simp add: e intent_body_def)
  with assms have "computeObjectId E (body_json (ensure_id E unsigned_body))
      = computeObjectId E (body_json unsigned_body)"
    by simp
  then show ?thesis
    using canonical_differs [of "computeObjectId E (body_json unsigned_body)"]
    by (simp add: e computeObjectId_def)
qed

text \<open>
  C1. An object whose id was derived by hashing the canonical form of its body without
  the id (and without the sigset, which is no part of the body) is to pass the id check.
  The body \<open>unsigned_body\<close> gets its id that way, by the step of \<open>issue-intent\<close>; the
  intent made of it, signed by its authorized signer, is rejected with
  \<open>ID mismatch\<close>, and that is its only error: with the id the validator computes put
  in its place, the intent is valid.
\<close>

theorem derived_id_rejected:
  "id_field (ensure_id test_env unsigned_body)
     = Some (computeObjectId test_env (body_json unsigned_body))
   \<and> computeObjectId test_env (body_json unsigned_body) = rep32 ''93''
   \<and> toCanonical (body_json unsigned_body)
     = str ''{\"policy\":{\"authorized_signers\":[{\"pubkey\":\"'' @ key_a
       @ str ''\"}],\"min_signers\":1},\"version\":\"1.0.0\"}''
   \<and> verifyIntent test_env derived_intent =
       Inr \<lparr>valid = False,
            errors = [str ''ID mismatch: body.id is '' @ rep32 ''93'' @ str '', computed ID is ''
                      @ rep32 ''db''],
            warnings = None\<rparr>
   \<and> verifyIntent test_env fixpoint_intent = Inr ok_result"
  by code_simp

section \<open>Frames: path and energy\<close>

lemma verifyFrame_valid:
  assumes "verifyFrame E frame ctx = Inr r"
  shows "valid r \<longleftrightarrow>
     frame_checks E frame \<and> (case ctx of None \<Rightarrow> True | Some intent \<Rightarrow> refers_to frame intent)"
proof (cases "object_type frame = str ''frame''")
  case False
  then show ?thesis
    using assms by (auto simp: verifyFrame_def frame_checks_def)
next
  case ot: True
  show ?thesis
  proof (cases "body frame")
    case None
    then show ?thesis
      using assms ot by (auto simp: verifyFrame_def frame_checks_def)
  next
    case b: (Some b)
    show ?thesis
    proof (cases "truthy_str (id_field b) \<and> truthy_str (intent_id b) \<and> sequence b \<noteq> None
                  \<and> truthy_str (executor b)")
      case False
      then have "\<not> frame_checks E frame"
        using b by (auto simp: frame_checks_def)
      moreover have "\<not> valid r"
        using assms ot b False by (auto simp: verifyFrame_def Let_def split: if_splits)
      ultimately show ?thesis by simp
    next
      case t: True
      show ?thesis
      proof (cases "signature frame")
        case None
        then show ?thesis
          using assms ot b t by (auto simp: verifyFrame_def frame_checks_def Let_def)
      next
        case sg: (Some sg)
        show ?thesis
        proof (cases "verifySignature E (pubkey sg) (extractBodyForSigning b) (sig sg) (suite_id sg)")
          case (Inl e)
          then show ?thesis
            using assms ot b t sg by (simp add: verifyFrame_def Let_def)
        next
          case v: (Inr sigValid)
          show ?thesis
          proof (cases ctx)
            case None
            then show ?thesis
              using assms ot b t sg v
              by (auto simp: verifyFrame_def frame_checks_def Let_def split: if_splits)
          next
            case i: (Some i)
            show ?thesis
            proof (cases "body i")
              case None
              then show ?thesis
                using assms ot b t sg v i by (simp add: verifyFrame_def Let_def)
            next
              case ib: (Some ib)
              show ?thesis
              proof (cases "policy ib")
                case None
                then show ?thesis
                  using assms ot b t sg v i ib by (simp add: verifyFrame_def Let_def)
              next
                case (Some p)
                then show ?thesis
                  using assms ot b t sg v i ib
                  by (auto simp: verifyFrame_def frame_checks_def refers_to_def Let_def
                      split: if_splits)
              qed
            qed
          qed
        qed
      qed
    qed
  qed
qed


text \<open>
  Under every hash and every signature scheme, the only errors that a frame built by
  \<open>test_frame\<close> can get are the id mismatch and the invalid signature.
\<close>

lemma test_frame_any_env:
  assumes "truthy_str (id_field b)" and "truthy_str (intent_id b)" and "sequence b \<noteq> None"
    and "executor b = Some key_a"
  shows "\<exists>v. verifyFrame E (test_frame b (signed_by_a h)) None =
     Inr (conclude (id_mismatch E b @ (if v then [] else [str ''Invalid executor signature''])) [])"
proof -
  have k: "truthy_str (Some key_a)"
    by code_simp
  obtain v where "verifySignature E key_a (extractBodyForSigning b) (rep32 h @ key_a)
      (str ''ed25519-blake3'') = Inr v"
    by (simp add: verifySignature_def)
  then show ?thesis
    using assms k
    by (auto simp: verifyFrame_def test_frame_def signed_by_a_def Let_def tmpl_str_def
        intro!: exI [of _ v])
qed

lemma test_frame_context_any_env:
  assumes "truthy_str (id_field b)" and "intent_id b = Some (str ''i1'')" and "sequence b \<noteq> None"
    and "executor b = Some key_a"
  shows "\<exists>v ws. verifyFrame E (test_frame b (signed_by_a h)) (Some (parent_intent e)) =
     Inr (conclude (id_mismatch E b @ (if v then [] else [str ''Invalid executor signature''])) ws)"
proof -
  have k: "truthy_str (Some key_a)" "truthy_str (Some (str ''i1''))"
    by code_simp+
  obtain v where "verifySignature E key_a (extractBodyForSigning b) (rep32 h @ key_a)
      (str ''ed25519-blake3'') = Inr v"
    by (simp add: verifySignature_def)
  then show ?thesis
    using assms k
    by (auto simp: verifyFrame_def test_frame_def signed_by_a_def Let_def tmpl_str_def
        parent_intent_def parent_body_def empty_body_def
        intro!: exI [of _ v])
qed

lemma broken_path_frame_any_env:
  "\<exists>v. verifyFrame E broken_path_frame None =
     Inr (conclude (id_mismatch E broken_path_body
                    @ (if v then [] else [str ''Invalid executor signature''])) [])"
proof -
  have "truthy_str (id_field broken_path_body)" "truthy_str (intent_id broken_path_body)"
    by code_simp+
  moreover have "sequence broken_path_body \<noteq> None" "executor broken_path_body = Some key_a"
    by (simp_all add: broken_path_body_def frame_body_def empty_body_def)
  ultimately show ?thesis
    unfolding broken_path_frame_def by (rule test_frame_any_env)
qed

lemma excess_energy_frame_any_env:
  "\<exists>v ws. verifyFrame E excess_energy_frame (Some (parent_intent 1000)) =
     Inr (conclude (id_mismatch E excess_energy_body
                    @ (if v then [] else [str ''Invalid executor signature''])) ws)"
proof -
  have "truthy_str (id_field excess_energy_body)"
    by code_simp
  moreover have "intent_id excess_energy_body = Some (str ''i1'')"
      "sequence excess_energy_body \<noteq> None" "executor excess_energy_body = Some key_a"
    by (simp_all add: excess_energy_body_def frame_body_def empty_body_def)
  ultimately show ?thesis
    unfolding excess_energy_frame_def by (rule test_frame_context_any_env)
qed

text \<open>Whatever \<open>verifyFrame\<close> reports is one of its messages.\<close>

lemma verifyFrame_errors:
  assumes "verifyFrame E frame ctx = Inr r"
  shows "set (errors r) \<subseteq> frame_messages E frame ctx"
proof (cases "object_type frame = str ''frame''")
  case False
  then show ?thesis
    using assms by (auto simp: verifyFrame_def frame_messages_def)
next
  case ot: True
  show ?thesis
  proof (cases "body frame")
    case None
    then show ?thesis
      using assms ot by (auto simp: verifyFrame_def frame_messages_def)
  next
    case b: (Some b)
    show ?thesis
    proof (cases "truthy_str (id_field b) \<and> truthy_str (intent_id b) \<and> sequence b \<noteq> None
                  \<and> truthy_str (executor b)")
      case False
      then show ?thesis
        using assms ot b
        by (auto simp: verifyFrame_def frame_messages_def Let_def split: if_splits)
    next
      case t: True
      show ?thesis
      proof (cases "signature frame")
        case None
        then show ?thesis
          using assms ot b t by (auto simp: verifyFrame_def frame_messages_def Let_def)
      next
        case sg: (Some sg)
        show ?thesis
        proof (cases "verifySignature E (pubkey sg) (extractBodyForSigning b) (sig sg) (suite_id sg)")
          case (Inl e)
          then show ?thesis
            using assms ot b t sg by (simp add: verifyFrame_def Let_def)
        next
          case v: (Inr sigValid)
          show ?thesis
          proof (cases ctx)
            case None
            then show ?thesis
              using assms ot b t sg v
              by (auto simp: verifyFrame_def frame_messages_def Let_def split: if_splits)
          next
            case i: (Some i)
            show ?thesis
            proof (cases "body i")
              case None
              then show ?thesis
                using assms ot b t sg v i by (simp add: verifyFrame_def Let_def)
            next
              case ib: (Some ib)
              show ?thesis
              proof (cases "policy ib")
                case None
                then show ?thesis
                  using assms ot b t sg v i ib by (simp add: verifyFrame_def Let_def)
              next
                case (Some p)
                then show ?thesis
                  using assms ot b t sg v i ib
                  by (auto simp: verifyFrame_def frame_messages_def Let_def split: if_splits)
              qed
            qed
          qed
        qed
      qed
    qed
  qed
qed

text \<open>
  Of the body of the frame, \<open>verifyFrame\<close> reads the id, the \<open>intent_id\<close>, the sequence
  and the executor; every other property, the segments among them, enters through the
  hash and the signature check alone.
\<close>

lemma id_mismatch_rest:
  assumes "computeObjectId E (body_json (b\<lparr>body_rest := rest\<rparr>)) = computeObjectId E (body_json b)"
  shows "id_mismatch E (b\<lparr>body_rest := rest\<rparr>) = id_mismatch E b"
  using assms by (simp add: id_mismatch_def Let_def)

lemma verifyFrame_segments:
  assumes "body frame = Some b"
    and "same_hash_and_signature E frame b (b\<lparr>body_rest := rest\<rparr>)"
  shows "verifyFrame E (frame\<lparr>body := Some (b\<lparr>body_rest := rest\<rparr>)\<rparr>) ctx = verifyFrame E frame ctx"
proof -
  have h: "computeObjectId E (body_json (b\<lparr>body_rest := rest\<rparr>)) = computeObjectId E (body_json b)"
    using assms(2) by (simp add: same_hash_and_signature_def)
  show ?thesis
  proof (cases "signature frame")
    case None
    then show ?thesis
      using assms(1) id_mismatch_rest [OF h]
      by (simp add: verifyFrame_def Let_def split: option.splits sum.splits)
  next
    case (Some sg)
    then show ?thesis
      using assms id_mismatch_rest [OF h]
      by (simp add: verifyFrame_def same_hash_and_signature_def Let_def
          split: option.splits sum.splits)
  qed
qed

text \<open>
  The toy hash and signature check do not tell the broken path from the continuous one.
\<close>

lemma chained_same_hash_and_signature:
  "same_hash_and_signature test_env broken_path_frame broken_path_body
     (broken_path_body\<lparr>body_rest := body_rest chained_body\<rparr>)"
  by code_simp

text \<open>
  The frame with the segments \<open>A \<rightarrow> B\<close> and \<open>C \<rightarrow> D\<close> under an id that the toy hash does
  not compute: it is rejected, for its id alone.
\<close>

lemma relabelled_frame_result:
  "verifyFrame test_env relabelled_frame None =
     Inr (failure [str ''ID mismatch: body.id is '' @ rep32 ''00'' @ str '', computed ID is ''
                   @ rep32 ''0a''])"
  by code_simp

text \<open>
  C2, as the code has it. \<open>verifyFrame\<close> has no check of path continuity and reports no
  \<open>PathDiscontinuity\<close> error. For every frame, whatever its segments, with or without
  the parent intent as context: the result is valid exactly when the type of the frame,
  its required fields, its id, the signature of its executor and the executor's key
  pass their checks (and, with a context, its \<open>intent_id\<close> is the id of the intent);
  every error of the result is one of the messages of \<open>verifyFrame\<close>, which are
  about the type, the required fields, the id, the signature, the executor's key and
  the \<open>intent_id\<close>; and the result is the same for the frame with any other segments,
  continuous or not, on which the hash and the signature check come out the same.
\<close>

theorem verifyFrame_without_path_check:
  assumes "verifyFrame E frame ctx = Inr r"
  shows "(valid r \<longleftrightarrow>
            frame_checks E frame
            \<and> (case ctx of None \<Rightarrow> True | Some intent \<Rightarrow> refers_to frame intent))
       \<and> set (errors r) \<subseteq> frame_messages E frame ctx
       \<and> (body frame = Some b \<and> same_hash_and_signature E frame b (b\<lparr>body_rest := rest\<rparr>)
            \<longrightarrow> verifyFrame E (frame\<lparr>body := Some (b\<lparr>body_rest := rest\<rparr>)\<rparr>) ctx = Inr r)"
  using verifyFrame_valid [OF assms] verifyFrame_errors [OF assms]
    verifyFrame_segments [of frame b E rest ctx] assms
  by simp

text \<open>
  A frame with the segments \<open>A \<rightarrow> B\<close> and \<open>C \<rightarrow> D\<close> is accepted when its id is the one
  the validator computes; with another id it is rejected, and the id mismatch is the
  only error.
\<close>

theorem broken_path_frame_accepted:
  "\<not> path_continuous (segments_of broken_path_body)
   \<and> body broken_path_frame = Some broken_path_body
   \<and> verifyFrame test_env broken_path_frame None = Inr ok_result
   \<and> body relabelled_frame = Some (broken_path_body\<lparr>id_field := Some (rep32 ''00'')\<rparr>)
   \<and> segments_of (broken_path_body\<lparr>id_field := Some (rep32 ''00'')\<rparr>)
       = segments_of broken_path_body
   \<and> verifyFrame test_env relabelled_frame None =
       Inr \<lparr>valid = False,
            errors = [str ''ID mismatch: body.id is '' @ rep32 ''00'' @ str '', computed ID is ''
                      @ rep32 ''0a''],
            warnings = None\<rparr>"
  by code_simp

theorem verifyFrame_without_path_check_witness:
  "verifyFrame test_env broken_path_frame None = Inr ok_result
   \<and> valid ok_result \<and> frame_checks test_env broken_path_frame
   \<and> path_continuous (segments_of chained_body)
   \<and> body chained_frame = Some chained_body
   \<and> verifyFrame test_env chained_frame None = Inr ok_result
   \<and> verifyFrame test_env relabelled_frame None =
       Inr (failure [str ''ID mismatch: body.id is '' @ rep32 ''00'' @ str '', computed ID is ''
                     @ rep32 ''0a''])
   \<and> \<not> frame_checks test_env relabelled_frame
   \<and> str ''ID mismatch: body.id is '' @ rep32 ''00'' @ str '', computed ID is '' @ rep32 ''0a''
       \<in> frame_messages test_env relabelled_frame None"
proof -
  have b: "body broken_path_frame = Some broken_path_body"
    by (simp add: broken_path_frame_def test_frame_def)
  have c: "broken_path_frame\<lparr>body := Some (broken_path_body\<lparr>body_rest := body_rest chained_body\<rparr>)\<rparr>
           = chained_frame"
    by (simp add: broken_path_frame_def chained_frame_def test_frame_def broken_path_body_def
        chained_body_def frame_body_def)
  have p: "path_continuous (segments_of chained_body)"
    by code_simp
  show ?thesis
    using verifyFrame_without_path_check [OF broken_path_frame_result,
        of broken_path_body "body_rest chained_body"]
      verifyFrame_without_path_check [OF relabelled_frame_result]
      broken_path_frame_result relabelled_frame_result chained_same_hash_and_signature b c p
    by (simp add: ok_result_def chained_frame_def test_frame_def)
qed





end
